theory Spec2Isabelle
  imports Main "HOL-Library.Word" "HOL-Library.Sublist"
begin

section \<open>JavaScript strings\<close>

text \<open>
  A JavaScript string is a sequence of UTF-16 code units; \<open>length\<close> counts code units.
  String literals of the source that are plain ASCII are written with \<open>js\<close>.
\<close>

type_synonym jschar = "16 word"
type_synonym jsstring = "jschar list"

definition js :: "string \<Rightarrow> jsstring" where
  "js s = map (\<lambda>c. of_nat (of_char c)) s"

text \<open>
  The code units that \<open>String.prototype.trim\<close> strips and that \<open>\s\<close> matches in a regular
  expression without the \<open>u\<close> flag: WhiteSpace and LineTerminator of ECMAScript.
\<close>

definition is_space :: "jschar \<Rightarrow> bool" where
  "is_space c =
     (c \<in> set [0x09, 0x0A, 0x0B, 0x0C, 0x0D, 0x20, 0xA0, 0x1680, 0x2028, 0x2029,
                0x202F, 0x205F, 0x3000, 0xFEFF]
      \<or> (0x2000 \<le> c \<and> c \<le> 0x200A))"

definition trim :: "jsstring \<Rightarrow> jsstring" where
  "trim s = rev (dropWhile is_space (rev (dropWhile is_space s)))"

text \<open>
  A value that may be \<open>undefined\<close> or \<open>null\<close> is an option. \<open>truthy\<close> is the test that
  \<open>if (v)\<close>, \<open>!v\<close>, \<open>v && ...\<close> and \<open>v || ...\<close> make on it: the empty string is falsy too.
  \<open>String(v)\<close> of a string is the string itself.
\<close>

definition truthy :: "jsstring option \<Rightarrow> bool" where
  "truthy v = (case v of None \<Rightarrow> False | Some s \<Rightarrow> s \<noteq> [])"

definition String :: "jsstring option \<Rightarrow> jsstring" where
  "String v = (case v of None \<Rightarrow> js ''undefined'' | Some s \<Rightarrow> s)"

section \<open>Regular expressions (validator.js, line 9)\<close>

text \<open>
  The fragment of regular expressions that \<open>EMAIL_RE\<close> is written in: literal code units,
  negated character classes whose members are literals or \<open>\s\<close>, sequence and repetition.
  \<open>Never\<close>, \<open>Empty\<close> and \<open>Or\<close> only arise while matching.
\<close>

datatype cls_item = Lit jschar | WhiteSpace

datatype regex =
    Never
  | Empty
  | Char jschar
  | NoneOf "cls_item list"
  | Seq regex regex
  | Or regex regex
  | Many regex

fun in_item :: "jschar \<Rightarrow> cls_item \<Rightarrow> bool" where
  "in_item c (Lit d) = (c = d)"
| "in_item c WhiteSpace = is_space c"

definition plus :: "regex \<Rightarrow> regex" where
  \<comment> \<open>\<open>r+\<close>\<close>
  "plus r = Seq r (Many r)"

definition at_least2 :: "regex \<Rightarrow> regex" where
  \<comment> \<open>\<open>r{2,}\<close>\<close>
  "at_least2 r = Seq r (Seq r (Many r))"

fun nullable :: "regex \<Rightarrow> bool" where
  "nullable Never = False"
| "nullable Empty = True"
| "nullable (Char _) = False"
| "nullable (NoneOf _) = False"
| "nullable (Seq r s) = (nullable r \<and> nullable s)"
| "nullable (Or r s) = (nullable r \<or> nullable s)"
| "nullable (Many _) = True"

fun deriv :: "jschar \<Rightarrow> regex \<Rightarrow> regex" where
  "deriv c Never = Never"
| "deriv c Empty = Never"
| "deriv c (Char d) = (if c = d then Empty else Never)"
| "deriv c (NoneOf xs) = (if list_ex (in_item c) xs then Never else Empty)"
| "deriv c (Seq r s) =
     (if nullable r then Or (Seq (deriv c r) s) (deriv c s) else Seq (deriv c r) s)"
| "deriv c (Or r s) = Or (deriv c r) (deriv c s)"
| "deriv c (Many r) = Seq (deriv c r) (Many r)"

text \<open>
  \<open>RegExp.prototype.test\<close> for a pattern anchored by \<open>^\<close> and \<open>$\<close> (no \<open>m\<close> flag): the whole
  string has to match.
\<close>

definition test :: "regex \<Rightarrow> jsstring \<Rightarrow> bool" where
  "test r s = nullable (foldl (\<lambda>r c. deriv c r) r s)"

definition not_space_at :: regex where
  \<comment> \<open>\<open>[^\s@]\<close>\<close>
  "not_space_at = NoneOf [WhiteSpace, Lit 0x40]"

definition EMAIL_RE :: regex where
  \<comment> \<open>\<open>/^[^\s@]+@[^\s@]+\.[^\s@]{2,}$/\<close>\<close>
  "EMAIL_RE =
     Seq (plus not_space_at)
       (Seq (Char 0x40)
         (Seq (plus not_space_at)
           (Seq (Char 0x2E)
             (at_least2 not_space_at))))"

section \<open>Validator (validator.js)\<close>

definition E_FIRSTNAME :: jsstring where
  "E_FIRSTNAME = js ''First name must be at least 2 characters.''"

definition E_EMAIL :: jsstring where
  "E_EMAIL = js ''A valid email address is required.''"

definition E_SHORT :: jsstring where
  "E_SHORT = js ''Message must be at least 10 characters.''"

definition E_LONG :: jsstring where
  "E_LONG = js ''Message must not exceed 5,000 characters.''"

text \<open>
  \<open>validate({ firstName, email, message })\<close>. Each field is a string, or absent
  (\<open>undefined\<close>, \<open>null\<close>). \<open>errors.push\<close> appends.
\<close>

definition validate :: "jsstring option \<Rightarrow> jsstring option \<Rightarrow> jsstring option \<Rightarrow> jsstring list" where
  "validate firstName email message =
     (let errors = [];
          errors = (if \<not> truthy firstName \<or> length (trim (String firstName)) < 2
                    then errors @ [E_FIRSTNAME] else errors);
          errors = (if \<not> truthy email \<or> \<not> test EMAIL_RE (trim (String email))
                    then errors @ [E_EMAIL] else errors);
          errors = (if \<not> truthy message \<or> length (trim (String message)) < 10
                    then errors @ [E_SHORT] else errors);
          errors = (if truthy message \<and> length (trim (String message)) > 5000
                    then errors @ [E_LONG] else errors)
      in errors)"

section \<open>Rate limiter (contact.js, lines 20-42)\<close>

record rate_entry =
  count :: int
  windowStart :: int

type_synonym ip_log = "jsstring \<rightharpoonup> rate_entry"

definition RATE_WINDOW_MS :: int where
  "RATE_WINDOW_MS = 15 * 60 * 1000"

definition RATE_MAX :: int where
  "RATE_MAX = 10"

text \<open>
  \<open>isRateLimited(ip)\<close>. \<open>now\<close> is the value that \<open>Date.now()\<close> returns at line 28, in
  milliseconds; the module-level \<open>Map\<close> is passed in and returned.
\<close>

definition isRateLimited :: "int \<Rightarrow> jsstring \<Rightarrow> ip_log \<Rightarrow> bool \<times> ip_log" where
  "isRateLimited now ip ipLog =
     (let entry = (case ipLog ip of Some e \<Rightarrow> e | None \<Rightarrow> \<lparr>count = 0, windowStart = now\<rparr>)
      in if now - windowStart entry > RATE_WINDOW_MS
         then (False, ipLog(ip \<mapsto> \<lparr>count = 1, windowStart = now\<rparr>))
         else if count entry \<ge> RATE_MAX then (True, ipLog)
         else (False, ipLog(ip \<mapsto> entry\<lparr>count := count entry + 1\<rparr>)))"

text \<open>Successive calls \<open>isRateLimited(ip)\<close> for one key, at the given clock readings.\<close>

fun limiter_calls :: "jsstring \<Rightarrow> int list \<Rightarrow> ip_log \<Rightarrow> bool list \<times> ip_log" where
  "limiter_calls ip [] ipLog = ([], ipLog)"
| "limiter_calls ip (now # nows) ipLog =
     (case isRateLimited now ip ipLog of
        (r, ipLog1) \<Rightarrow> (case limiter_calls ip nows ipLog1 of (rs, ipLog2) \<Rightarrow> (r # rs, ipLog2)))"

section \<open>Environment, network and process state\<close>

text \<open>\<open>process.env\<close>: a variable that is not set reads as \<open>undefined\<close>.\<close>

record env =
  ALLOWED_ORIGIN :: "jsstring option"
  ZOHO_ACCOUNTS_URL :: "jsstring option"
  ZOHO_CLIENT_ID :: "jsstring option"
  ZOHO_CLIENT_SECRET :: "jsstring option"
  ZOHO_REFRESH_TOKEN :: "jsstring option"
  ZOHO_ACCOUNT_ID :: "jsstring option"
  ZOHO_FROM_EMAIL :: "jsstring option"

text \<open>
  One call of \<open>axios.post(url, data, config)\<close>: the request body is the list of the keys
  and values of the form or of the JSON object, in the order of the source.
\<close>

record request =
  req_url :: jsstring
  req_data :: "(string \<times> jsstring) list"
  req_headers :: "(string \<times> jsstring) list"
  req_timeout :: "int option"

text \<open>
  What \<open>axios.post\<close> gives back: it resolves with a status and the response data
  (for a status of the 2xx range), or rejects with an error that carries the response,
  when the server answered, and a message. Absent or empty response data is \<open>None\<close>.
\<close>

datatype 'b axios_error = AxiosError "(nat \<times> 'b option) option" jsstring

datatype 'b axios_result = Resolved nat "'b option" | Rejected "'b axios_error"

text \<open>The fields of the token endpoint's response that auth.js reads.\<close>

record token_body =
  access_token :: "jsstring option"
  expires_in :: "int option"

text \<open>
  The fields of the mail endpoint's response that mailer.js reads:
  \<open>data?.data?.messageId\<close>, \<open>data?.data?.errorCode\<close> and \<open>data?.status?.code\<close>.
\<close>

record mail_body =
  messageId :: "jsstring option"
  errorCode :: "jsstring option"
  status_code :: "jsstring option"

text \<open>The six string fields of the form, each optional in the JSON body.\<close>

record submission =
  s_firstName :: "jsstring option"
  s_lastName :: "jsstring option"
  s_email :: "jsstring option"
  s_phone :: "jsstring option"
  s_interest :: "jsstring option"
  s_message :: "jsstring option"

text \<open>
  The runtime and the outside world, as parameters: \<open>JSON.parse\<close> on the request body
  (\<open>None\<close> when it throws), \<open>JSON.stringify\<close> on a provider response, the two endpoints
  (their answer may depend on the requests sent so far), and the four e-mail templates
  of contact.js, which are string formatting only.
\<close>

record runtime =
  JSON_parse :: "jsstring \<Rightarrow> submission option"
  JSON_stringify :: "mail_body option \<Rightarrow> jsstring"
  token_post :: "request list \<Rightarrow> request \<Rightarrow> token_body axios_result"
  mail_post :: "request list \<Rightarrow> request \<Rightarrow> mail_body axios_result"
  teamEmailHtml :: "jsstring \<Rightarrow> jsstring \<Rightarrow> jsstring \<Rightarrow> jsstring \<Rightarrow> jsstring \<Rightarrow> jsstring"
  teamEmailText :: "jsstring \<Rightarrow> jsstring \<Rightarrow> jsstring \<Rightarrow> jsstring \<Rightarrow> jsstring \<Rightarrow> jsstring"
  autoReplyHtml :: "jsstring \<Rightarrow> jsstring"
  autoReplyText :: "jsstring \<Rightarrow> jsstring"

text \<open>
  The module-level state of a function instance: \<open>ipLog\<close> of contact.js,
  \<open>_cachedToken\<close> and \<open>_tokenExpiry\<close> of auth.js, and the requests sent so far, oldest
  first. Console output is not modelled.
\<close>

record world =
  ipLog :: ip_log
  cachedToken :: "jsstring option"
  tokenExpiry :: "int option"
  netlog :: "request list"

definition initial :: world where
  "initial = \<lparr>ipLog = Map.empty, cachedToken = None, tokenExpiry = None, netlog = []\<rparr>"

text \<open>A thrown value: \<open>new Error(message)\<close>, or the error that axios rejected with.\<close>

datatype js_error = Error jsstring | Axios "mail_body axios_error"

text \<open>Truthiness and \<open>||\<close> on values that may be absent.\<close>

definition truthy_num :: "int option \<Rightarrow> bool" where
  "truthy_num v = (case v of None \<Rightarrow> False | Some n \<Rightarrow> n \<noteq> 0)"

definition or_else :: "jsstring option \<Rightarrow> jsstring \<Rightarrow> jsstring" where
  "or_else v d = (case v of None \<Rightarrow> d | Some s \<Rightarrow> if s = [] then d else s)"

text \<open>A destructuring default \<open>{ field = '' }\<close>: it applies to an absent field only.\<close>

definition dflt :: "jsstring option \<Rightarrow> jsstring" where
  "dflt v = (case v of None \<Rightarrow> [] | Some s \<Rightarrow> s)"

definition or_else_num :: "int option \<Rightarrow> int \<Rightarrow> int" where
  "or_else_num v d = (case v of None \<Rightarrow> d | Some n \<Rightarrow> if n = 0 then d else n)"

section \<open>Token provider (auth.js)\<close>

definition E_TOKEN :: jsstring where
  "E_TOKEN = js ''Could not obtain Zoho access token. '' @
     js ''Check ZOHO_CLIENT_ID, ZOHO_CLIENT_SECRET, and ZOHO_REFRESH_TOKEN in Netlify environment variables.''"

definition token_request :: "env \<Rightarrow> request" where
  \<comment> \<open>lines 35-49\<close>
  "token_request env =
     (let accountsUrl = or_else (ZOHO_ACCOUNTS_URL env) (js ''https://accounts.zoho.com'')
      in \<lparr>req_url = accountsUrl @ js ''/oauth/v2/token'',
          req_data = [(''grant_type'', js ''refresh_token''),
                      (''client_id'', String (ZOHO_CLIENT_ID env)),
                      (''client_secret'', String (ZOHO_CLIENT_SECRET env)),
                      (''refresh_token'', String (ZOHO_REFRESH_TOKEN env))],
          req_headers = [(''Content-Type'', js ''application/x-www-form-urlencoded'')],
          req_timeout = None\<rparr>)"

text \<open>
  \<open>getAccessToken()\<close>; \<open>now\<close> is the reading of \<open>Date.now()\<close> at line 28. Every throw
  inside the \<open>try\<close>, the \<open>TypeError\<close> of reading \<open>data.access_token\<close> on absent data
  included, reaches the \<open>catch\<close>, which throws the one fixed error.
\<close>

definition getAccessToken :: "runtime \<Rightarrow> env \<Rightarrow> int \<Rightarrow> world \<Rightarrow> (js_error + jsstring) \<times> world" where
  "getAccessToken rt env now w =
     (if truthy (cachedToken w) \<and> truthy_num (tokenExpiry w)
         \<and> now < or_else_num (tokenExpiry w) 0 - 60000
      then (Inr (String (cachedToken w)), w)
      else
        let req = token_request env;
            w1 = w\<lparr>netlog := netlog w @ [req]\<rparr>
        in (case token_post rt (netlog w) req of
              Resolved status (Some data) \<Rightarrow>
                if \<not> truthy (access_token data) then (Inl (Error E_TOKEN), w1)
                else (Inr (String (access_token data)),
                      w1\<lparr>cachedToken := access_token data,
                         tokenExpiry := Some (now + or_else_num (expires_in data) 3600 * 1000)\<rparr>)
            | _ \<Rightarrow> (Inl (Error E_TOKEN), w1)))"

section \<open>Mail sender (mailer.js)\<close>

record email_message =
  fromName :: jsstring
  fromAddress :: "jsstring option"
  toAddress :: jsstring
  subject :: jsstring
  htmlBody :: jsstring
  textBody :: "jsstring option"

definition E_NO_ACCOUNT :: jsstring where
  "E_NO_ACCOUNT = js ''ZOHO_ACCOUNT_ID is not set in Netlify environment variables.''"

definition E_BAD_TOKEN :: jsstring where
  "E_BAD_TOKEN = js ''Zoho token is invalid. Check ZOHO_REFRESH_TOKEN in Netlify env vars.''"

definition E_BAD_ACCOUNT :: jsstring where
  "E_BAD_ACCOUNT = js ''ZOHO_ACCOUNT_ID is wrong. Re-check it in Zoho Mail API settings.''"

definition E_QUOTA :: jsstring where
  "E_QUOTA = js ''Zoho Mail daily sending quota exceeded.''"

definition E_UNEXPECTED :: "runtime \<Rightarrow> mail_body option \<Rightarrow> jsstring" where
  "E_UNEXPECTED rt data = js ''Unexpected Zoho response: '' @ JSON_stringify rt data"

definition E_API :: "runtime \<Rightarrow> mail_body option \<Rightarrow> jsstring" where
  "E_API rt zohoError = js ''Zoho Mail API error: '' @ JSON_stringify rt zohoError"

definition mail_request :: "jsstring \<Rightarrow> jsstring \<Rightarrow> email_message \<Rightarrow> request" where
  \<comment> \<open>lines 34-52\<close>
  "mail_request accountId accessToken msg =
     \<lparr>req_url = js ''https://mail.zoho.com/api/accounts/'' @ accountId @ js ''/messages'',
      req_data = [(''fromAddress'', fromName msg @ js '' <'' @ String (fromAddress msg) @ js ''>''),
                  (''toAddress'', toAddress msg),
                  (''subject'', subject msg),
                  (''content'', htmlBody msg),
                  (''mailFormat'', js ''html'')]
                 @ (if truthy (textBody msg) then [(''altText'', String (textBody msg))] else []),
      req_headers = [(''Authorization'', js ''Zoho-oauthtoken '' @ accessToken),
                     (''Content-Type'', js ''application/json'')],
      req_timeout = Some 10000\<rparr>"

text \<open>The \<open>catch\<close> block of \<open>send\<close> (lines 62-84): the error it throws for the error caught.\<close>

definition send_catch :: "runtime \<Rightarrow> js_error \<Rightarrow> js_error" where
  "send_catch rt err =
     (let zohoError = (case err of Axios (AxiosError (Some (status, d)) m) \<Rightarrow> d | _ \<Rightarrow> None)
      in case zohoError of
           Some z \<Rightarrow>
             (let code = (if truthy (errorCode z) then errorCode z else status_code z)
              in if code = Some (js ''INVALID_OAUTHTOKEN'') then Error E_BAD_TOKEN
                 else if code = Some (js ''INVALID_ACCOUNT'') then Error E_BAD_ACCOUNT
                 else if code = Some (js ''QUOTA_EXCEEDED'') then Error E_QUOTA
                 else Error (E_API rt zohoError))
         | None \<Rightarrow> err)"

text \<open>
  \<open>send(opts)\<close>, returning the \<open>messageId\<close> of the result object. \<open>getAccessToken\<close> is
  awaited outside the \<open>try\<close>, so its error passes through unchanged.
\<close>

definition send :: "runtime \<Rightarrow> env \<Rightarrow> int \<Rightarrow> email_message \<Rightarrow> world \<Rightarrow> (js_error + jsstring) \<times> world" where
  "send rt env now msg w =
     (case getAccessToken rt env now w of
        (Inl e, w1) \<Rightarrow> (Inl e, w1)
      | (Inr accessToken, w1) \<Rightarrow>
          let accountId = ZOHO_ACCOUNT_ID env
          in if \<not> truthy accountId then (Inl (Error E_NO_ACCOUNT), w1)
             else
               let req = mail_request (String accountId) accessToken msg;
                   w2 = w1\<lparr>netlog := netlog w1 @ [req]\<rparr>
               in (case mail_post rt (netlog w1) req of
                     Resolved status data \<Rightarrow>
                       (case data of
                          Some d \<Rightarrow>
                            if status = 200 \<and> truthy (messageId d)
                            then (Inr (String (messageId d)), w2)
                            else (Inl (send_catch rt (Error (E_UNEXPECTED rt data))), w2)
                        | None \<Rightarrow> (Inl (send_catch rt (Error (E_UNEXPECTED rt data))), w2))
                   | Rejected err \<Rightarrow> (Inl (send_catch rt (Axios err)), w2)))"

section \<open>Request handler (contact.js)\<close>

record event =
  httpMethod :: jsstring
  headers :: "jsstring \<rightharpoonup> jsstring"
  body :: "jsstring option"

datatype json_value = JBool bool | JString jsstring | JStrings "jsstring list"

text \<open>
  A response. The body is the empty string, or \<open>JSON.stringify\<close> of an object, kept as the
  list of its keys and values.
\<close>

datatype response_body = Text jsstring | Json "(string \<times> json_value) list"

record response =
  statusCode :: nat
  resp_headers :: "(string \<times> jsstring) list"
  resp_body :: response_body

definition corsHeaders :: "jsstring \<Rightarrow> (string \<times> jsstring) list" where
  "corsHeaders origin =
     [(''Access-Control-Allow-Origin'', origin),
      (''Access-Control-Allow-Methods'', js ''POST, OPTIONS''),
      (''Access-Control-Allow-Headers'', js ''Content-Type'')]"

text \<open>\<open>respond(statusCode, body, origin = '*')\<close>: \<open>None\<close> is the call with two arguments.\<close>

definition respond :: "nat \<Rightarrow> (string \<times> json_value) list \<Rightarrow> jsstring option \<Rightarrow> response" where
  "respond status obj origin =
     \<lparr>statusCode = status,
      resp_headers = corsHeaders (case origin of None \<Rightarrow> js ''*'' | Some s \<Rightarrow> s)
                     @ [(''Content-Type'', js ''application/json'')],
      resp_body = Json obj\<rparr>"

definition E_METHOD :: jsstring where
  "E_METHOD = js ''Method Not Allowed''"

definition E_TOO_MANY :: jsstring where
  "E_TOO_MANY = js ''Too many submissions. Please wait 15 minutes and try again.''"

definition E_JSON :: jsstring where
  "E_JSON = js ''Invalid JSON body.''"

definition E_FAILED :: jsstring where
  "E_FAILED = js ''Failed to send your message. Please email us directly at oselu@agrinovalabs.site''"

text \<open>
  Line 65: \<open>event.headers['x-forwarded-for']?.split(',')[0]?.trim() || 'unknown'\<close>.
\<close>

definition client_ip :: "event \<Rightarrow> jsstring" where
  "client_ip ev =
     (case headers ev (js ''x-forwarded-for'') of
        None \<Rightarrow> js ''unknown''
      | Some h \<Rightarrow> or_else (Some (trim (takeWhile (\<lambda>c. c \<noteq> 0x2C) h))) (js ''unknown''))"

text \<open>The two messages that the handler passes to \<open>mailer.send\<close> (lines 103-120).\<close>

definition fullName_of :: "jsstring \<Rightarrow> jsstring \<Rightarrow> jsstring" where
  \<comment> \<open>line 96\<close>
  "fullName_of firstName lastName = trim (trim firstName @ js '' '' @ trim lastName)"

definition subject_of :: "jsstring \<Rightarrow> jsstring \<Rightarrow> jsstring" where
  \<comment> \<open>line 97; \<open>0x2014\<close> is the dash\<close>
  "subject_of interest fullName =
     js ''AgriNova Inquiry'' @ (if interest \<noteq> [] then js '': '' @ interest else [])
       @ [0x20, 0x2014, 0x20] @ js ''from '' @ fullName"

definition notification :: "runtime \<Rightarrow> env \<Rightarrow> submission \<Rightarrow> email_message" where
  "notification rt env b =
     (let firstName = dflt (s_firstName b); lastName = dflt (s_lastName b);
          email = dflt (s_email b); phone = dflt (s_phone b);
          interest = dflt (s_interest b); message = dflt (s_message b);
          fullName = fullName_of firstName lastName
      in \<lparr>fromName = js ''AgriNova Labs Website'',
          fromAddress = ZOHO_FROM_EMAIL env,
          toAddress = js ''oselu@agrinovalabs.site'',
          subject = subject_of interest fullName,
          htmlBody = teamEmailHtml rt fullName email phone interest message,
          textBody = Some (teamEmailText rt fullName email phone interest message)\<rparr>)"

definition autoReply :: "runtime \<Rightarrow> env \<Rightarrow> submission \<Rightarrow> email_message" where
  "autoReply rt env b =
     (let firstName = dflt (s_firstName b); email = dflt (s_email b)
      in \<lparr>fromName = js ''AgriNova Labs'',
          fromAddress = ZOHO_FROM_EMAIL env,
          toAddress = trim email,
          subject = js ''We received your message, '' @ trim firstName @ js ''! ''
                    @ [0x2014] @ js '' AgriNova Labs'',
          htmlBody = autoReplyHtml rt (trim firstName),
          textBody = Some (autoReplyText rt (trim firstName))\<rparr>)"

definition thanks :: "jsstring \<Rightarrow> jsstring" where
  \<comment> \<open>line 124\<close>
  "thanks firstName =
     js ''Thank you, '' @ trim firstName
       @ js ''! Your message has been sent. We'' @ [0x27] @ js ''ll be in touch within 24 hours.''"

text \<open>
  \<open>exports.handler(event)\<close>. \<open>now 0\<close>, \<open>now 1\<close> and \<open>now 2\<close> are the readings of
  \<open>Date.now()\<close> in \<open>isRateLimited\<close> and in the \<open>getAccessToken\<close> of the first and of the
  second \<open>send\<close>. The body parses to an object whose six fields are strings or absent.
\<close>

definition handler :: "runtime \<Rightarrow> env \<Rightarrow> (nat \<Rightarrow> int) \<Rightarrow> event \<Rightarrow> world \<Rightarrow> response \<times> world" where
  "handler rt env now ev w =
     (if httpMethod ev \<noteq> js ''POST''
      then (respond 405 [(''success'', JBool False), (''error'', JString E_METHOD)] None, w)
      else
        let allowedOrigin = or_else (ALLOWED_ORIGIN env) (js ''*'')
        in if httpMethod ev = js ''OPTIONS''
           then (\<lparr>statusCode = 204, resp_headers = corsHeaders allowedOrigin, resp_body = Text []\<rparr>, w)
           else
             let ip = client_ip ev
             in case isRateLimited (now 0) ip (ipLog w) of
                  (limited, ipLog1) \<Rightarrow>
                    let w1 = w\<lparr>ipLog := ipLog1\<rparr>
                    in if limited
                       then (respond 429 [(''success'', JBool False), (''error'', JString E_TOO_MANY)]
                               (Some allowedOrigin), w1)
                       else
                         (case JSON_parse rt (or_else (body ev) (js ''{}'')) of
                            None \<Rightarrow>
                              (respond 400 [(''success'', JBool False), (''error'', JString E_JSON)]
                                 (Some allowedOrigin), w1)
                          | Some b \<Rightarrow>
                              let firstName = dflt (s_firstName b);
                                  email = dflt (s_email b);
                                  message = dflt (s_message b);
                                  errors = validate (Some firstName) (Some email) (Some message)
                              in if length errors > 0
                                 then (respond 400 [(''success'', JBool False), (''errors'', JStrings errors)]
                                         (Some allowedOrigin), w1)
                                 else
                                   (case send rt env (now 1) (notification rt env b) w1 of
                                      (Inl err, w2) \<Rightarrow>
                                        (respond 500 [(''success'', JBool False), (''error'', JString E_FAILED)]
                                           (Some allowedOrigin), w2)
                                    | (Inr r1, w2) \<Rightarrow>
                                        (case send rt env (now 2) (autoReply rt env b) w2 of
                                           (Inl err, w3) \<Rightarrow>
                                             (respond 500 [(''success'', JBool False), (''error'', JString E_FAILED)]
                                                (Some allowedOrigin), w3)
                                         | (Inr r2, w3) \<Rightarrow>
                                             (respond 200 [(''success'', JBool True),
                                                           (''message'', JString (thanks firstName))]
                                                (Some allowedOrigin), w3)))))"

text \<open>
  A warm function instance serves requests one after the other, each with its own clock
  readings; the module-level state is carried from one to the next.
\<close>

fun serve :: "runtime \<Rightarrow> env \<Rightarrow> ((nat \<Rightarrow> int) \<times> event) list \<Rightarrow> world \<Rightarrow> response list \<times> world" where
  "serve rt env [] w = ([], w)"
| "serve rt env ((now, ev) # rest) w =
     (case handler rt env now ev w of
        (r, w1) \<Rightarrow> (case serve rt env rest w1 of (rs, w2) \<Rightarrow> (r # rs, w2)))"

section \<open>Notions used to state the properties\<close>

subsection \<open>The language of a regular expression\<close>

inductive_set rep :: "'a list set \<Rightarrow> 'a list set" for A where
  rep_nil: "[] \<in> rep A"
| rep_app: "u \<in> A \<Longrightarrow> v \<in> rep A \<Longrightarrow> u @ v \<in> rep A"

definition cat :: "'a list set \<Rightarrow> 'a list set \<Rightarrow> 'a list set" where
  "cat A B = {u @ v | u v. u \<in> A \<and> v \<in> B}"

fun lang :: "regex \<Rightarrow> jsstring set" where
  "lang Never = {}"
| "lang Empty = {[]}"
| "lang (Char d) = {[d]}"
| "lang (NoneOf xs) = {[c] | c. \<not> list_ex (in_item c) xs}"
| "lang (Seq r s) = cat (lang r) (lang s)"
| "lang (Or r s) = lang r \<union> lang s"
| "lang (Many r) = rep (lang r)"

subsection \<open>Shapes of e-mail addresses\<close>

text \<open>A code unit that \<open>[^\s@]\<close> matches.\<close>

definition plain :: "jschar \<Rightarrow> bool" where
  "plain c = (\<not> is_space c \<and> c \<noteq> 0x40)"

text \<open>
  The form \<open>L@D.T\<close>: \<open>L\<close> and \<open>D\<close> not empty, \<open>T\<close> of two code units or more, and neither
  white space nor \<open>@\<close> in any of the three. \<open>D\<close> and \<open>T\<close> may contain dots.
\<close>

definition email_form :: "jsstring \<Rightarrow> bool" where
  "email_form s =
     (\<exists>l d t. s = l @ js ''@'' @ d @ js ''.'' @ t \<and> l \<noteq> [] \<and> d \<noteq> [] \<and> 2 \<le> length t \<and>
        (\<forall>c \<in> set (l @ d @ t). plain c))"

text \<open>
  The pattern in the words of the specification: \<open>local-part@domain.tld\<close>, where local
  part and domain hold neither white space nor \<open>@\<close>, and the final label, the part after
  the last dot, has two characters or more.
\<close>

definition spec_email_pattern :: "jsstring \<Rightarrow> bool" where
  "spec_email_pattern s =
     (\<exists>local domain tld. s = local @ js ''@'' @ domain @ js ''.'' @ tld \<and>
        local \<noteq> [] \<and> domain \<noteq> [] \<and> (\<forall>c \<in> set (local @ domain). plain c) \<and>
        2 \<le> length tld \<and> (\<forall>c \<in> set tld. plain c \<and> c \<noteq> 0x2E))"

subsection \<open>The four rules of the validator, in the words of the specification\<close>

text \<open>
  First name: absent, or shorter than 2 after trimming. E-mail: absent, or the trimmed
  string fails the pattern. Message: absent, or shorter than 10 after trimming; and,
  independently, present and longer than 5000 after trimming.
\<close>

definition rule_firstName :: "jsstring option \<Rightarrow> bool" where
  "rule_firstName v = (case v of None \<Rightarrow> True | Some s \<Rightarrow> length (trim s) < 2)"

definition rule_email :: "jsstring option \<Rightarrow> bool" where
  "rule_email v = (case v of None \<Rightarrow> True | Some s \<Rightarrow> \<not> test EMAIL_RE (trim s))"

definition rule_short :: "jsstring option \<Rightarrow> bool" where
  "rule_short v = (case v of None \<Rightarrow> True | Some s \<Rightarrow> length (trim s) < 10)"

definition rule_long :: "jsstring option \<Rightarrow> bool" where
  "rule_long v = (case v of None \<Rightarrow> False | Some s \<Rightarrow> length (trim s) > 5000)"

subsection \<open>The window of the rate limiter\<close>

text \<open>
  An entry whose window started more than 15 minutes before \<open>now\<close> is expired; a key is
  fresh when it has no entry or an expired one.
\<close>

definition expired :: "int \<Rightarrow> rate_entry \<Rightarrow> bool" where
  "expired now e = (now - windowStart e > 15 * 60 * 1000)"

definition fresh :: "int \<Rightarrow> jsstring \<Rightarrow> ip_log \<Rightarrow> bool" where
  "fresh now ip tbl = (case tbl ip of None \<Rightarrow> True | Some e \<Rightarrow> expired now e)"

subsection \<open>The token cache\<close>


definition cache_hit :: "int \<Rightarrow> world \<Rightarrow> bool" where
  "cache_hit now w =
     (truthy (cachedToken w) \<and> truthy_num (tokenExpiry w)
      \<and> now < or_else_num (tokenExpiry w) 0 - 60000)"

definition exchange_failed :: "token_body axios_result \<Rightarrow> bool" where
  "exchange_failed r =
     (case r of
        Rejected err \<Rightarrow> True
      | Resolved status None \<Rightarrow> True
      | Resolved status (Some d) \<Rightarrow> access_token d = None \<or> access_token d = Some [])"

subsection \<open>Answers of the mail provider\<close>

text \<open>
  The error code that the provider reports: \<open>data.errorCode\<close>, or else \<open>status.code\<close>.
  A response has a message identifier when \<open>data.messageId\<close> is a non-empty string.
  A request is a send of a message when it is the POST that \<open>send\<close> builds for it.
\<close>

definition error_code :: "mail_body \<Rightarrow> jsstring option" where
  "error_code z =
     (case errorCode z of
        None \<Rightarrow> status_code z
      | Some c \<Rightarrow> if c = [] then status_code z else Some c)"

definition has_message_id :: "mail_body option \<Rightarrow> bool" where
  "has_message_id data = (\<exists>d mid. data = Some d \<and> messageId d = Some mid \<and> mid \<noteq> [])"

definition is_send_of :: "email_message \<Rightarrow> request \<Rightarrow> bool" where
  "is_send_of msg r = (\<exists>a tok. r = mail_request a tok msg)"

subsection \<open>Requests and responses of the handler\<close>

text \<open>
  A POST without a usable \<open>X-Forwarded-For\<close> header; the generic 500 response and the 200
  response; and the conditions under which the handler gets as far as sending: a POST that
  is not rate limited (\<open>tbl\<close> is the limiter's table afterwards), whose body parses to \<open>b\<close>
  and passes validation.
\<close>

definition headerless_post :: "event \<Rightarrow> bool" where
  "headerless_post ev =
     (httpMethod ev = js ''POST'' \<and>
      (headers ev (js ''x-forwarded-for'') = None \<or> headers ev (js ''x-forwarded-for'') = Some []))"

definition failed :: "env \<Rightarrow> response" where
  "failed env =
     respond 500 [(''success'', JBool False), (''error'', JString E_FAILED)]
       (Some (or_else (ALLOWED_ORIGIN env) (js ''*'')))"

definition thanked :: "env \<Rightarrow> submission \<Rightarrow> response" where
  "thanked env b =
     respond 200 [(''success'', JBool True),
                  (''message'', JString (thanks (dflt (s_firstName b))))]
       (Some (or_else (ALLOWED_ORIGIN env) (js ''*'')))"

definition reaches_send :: "runtime \<Rightarrow> (nat \<Rightarrow> int) \<Rightarrow> event \<Rightarrow> world \<Rightarrow> submission \<Rightarrow> ip_log \<Rightarrow> bool" where
  "reaches_send rt now ev w b tbl =
     (httpMethod ev = js ''POST''
      \<and> isRateLimited (now 0) (client_ip ev) (ipLog w) = (False, tbl)
      \<and> JSON_parse rt (or_else (body ev) (js ''{}'')) = Some b
      \<and> validate (Some (dflt (s_firstName b))) (Some (dflt (s_email b)))
           (Some (dflt (s_message b))) = [])"

subsection \<open>Sample values\<close>

text \<open>
  A configured environment, the submission of the end-to-end test of the specification, a
  runtime whose endpoints give fixed answers, some answers, a world with a cached token,
  a POST without headers, and a message.
\<close>

definition env0 :: env where
  "env0 =
     \<lparr>ALLOWED_ORIGIN = None, ZOHO_ACCOUNTS_URL = None,
      ZOHO_CLIENT_ID = Some (js ''client''), ZOHO_CLIENT_SECRET = Some (js ''secret''),
      ZOHO_REFRESH_TOKEN = Some (js ''refresh''), ZOHO_ACCOUNT_ID = Some (js ''42''),
      ZOHO_FROM_EMAIL = Some (js ''hello@agrinovalabs.site'')\<rparr>"

definition jane :: submission where
  "jane =
     \<lparr>s_firstName = Some (js ''Jane''), s_lastName = Some (js ''Doe''),
      s_email = Some (js ''jane@example.com''), s_phone = None, s_interest = None,
      s_message = Some (js ''Hello, I am interested in your platform.'')\<rparr>"

definition rt0 :: "token_body axios_result \<Rightarrow> mail_body axios_result \<Rightarrow> runtime" where
  "rt0 token_answer mail_answer =
     \<lparr>JSON_parse = (\<lambda>s. Some jane), JSON_stringify = (\<lambda>d. js ''{}''),
      token_post = (\<lambda>sent r. token_answer), mail_post = (\<lambda>sent r. mail_answer),
      teamEmailHtml = (\<lambda>fullName email phone interest message. js ''html''),
      teamEmailText = (\<lambda>fullName email phone interest message. js ''text''),
      autoReplyHtml = (\<lambda>firstName. js ''html''),
      autoReplyText = (\<lambda>firstName. js ''text'')\<rparr>"

definition token_ok :: "token_body axios_result" where
  "token_ok = Resolved 200 (Some \<lparr>access_token = Some (js ''tok1''), expires_in = None\<rparr>)"

definition token_missing :: "token_body axios_result" where
  "token_missing = Resolved 200 (Some \<lparr>access_token = None, expires_in = Some 3600\<rparr>)"

definition mail_ok :: "mail_body axios_result" where
  "mail_ok = Resolved 200 (Some \<lparr>messageId = Some (js ''m1''), errorCode = None, status_code = None\<rparr>)"

definition mail_created :: "mail_body axios_result" where
  "mail_created = Resolved 201 (Some \<lparr>messageId = Some (js ''m1''), errorCode = None, status_code = None\<rparr>)"

definition mail_rejected :: "jsstring option \<Rightarrow> jsstring option \<Rightarrow> mail_body axios_result" where
  "mail_rejected ec sc =
     Rejected (AxiosError (Some (400, Some \<lparr>messageId = None, errorCode = ec, status_code = sc\<rparr>))
                 (js ''Request failed with status code 400''))"


definition cached :: "int \<Rightarrow> world" where
  "cached expiry = initial\<lparr>cachedToken := Some (js ''tok0''), tokenExpiry := Some expiry\<rparr>"

definition post_event :: event where
  "post_event = \<lparr>httpMethod = js ''POST'', headers = Map.empty, body = Some (js ''jane'')\<rparr>"

definition hello :: email_message where
  "hello =
     \<lparr>fromName = js ''AgriNova Labs'', fromAddress = Some (js ''hello@agrinovalabs.site''),
      toAddress = js ''jane@example.com'', subject = js ''Hello'', htmlBody = js ''html'',
      textBody = None\<rparr>"

section \<open>Properties of the validator\<close>

subsection \<open>Matching by derivatives decides the language\<close>

lemma nullable_lang: "nullable r \<longleftrightarrow> [] \<in> lang r"
  by (induction r) (auto simp: cat_def intro: rep_nil)

lemma in_cat: "w \<in> cat A B \<longleftrightarrow> (\<exists>u v. w = u @ v \<and> u \<in> A \<and> v \<in> B)"
  unfolding cat_def by blast

lemma cons_in_cat:
  "c # w \<in> cat A B \<longleftrightarrow> (\<exists>u v. w = u @ v \<and> c # u \<in> A \<and> v \<in> B) \<or> ([] \<in> A \<and> c # w \<in> B)"
  unfolding cat_def by (auto simp: Cons_eq_append_conv)

lemma cons_in_rep:
  "c # w \<in> rep A \<longleftrightarrow> (\<exists>u v. w = u @ v \<and> c # u \<in> A \<and> v \<in> rep A)"
proof
  assume "c # w \<in> rep A"
  then show "\<exists>u v. w = u @ v \<and> c # u \<in> A \<and> v \<in> rep A"
  proof (induction "c # w" rule: rep.induct)
    case (rep_app u v)
    then show ?case by (cases u) auto
  qed
next
  assume "\<exists>u v. w = u @ v \<and> c # u \<in> A \<and> v \<in> rep A"
  then obtain u v where "w = u @ v" "c # u \<in> A" "v \<in> rep A" by blast
  then show "c # w \<in> rep A" using rep_app[of "c # u" A v] by simp
qed

lemma lang_deriv: "w \<in> lang (deriv c r) \<longleftrightarrow> c # w \<in> lang r"
proof (induction r arbitrary: w)
  case (Seq r s)
  have "w \<in> lang (deriv c (Seq r s)) \<longleftrightarrow>
        w \<in> cat (lang (deriv c r)) (lang s) \<or> (nullable r \<and> w \<in> lang (deriv c s))"
    by simp
  also have "\<dots> \<longleftrightarrow> (\<exists>u v. w = u @ v \<and> c # u \<in> lang r \<and> v \<in> lang s) \<or> ([] \<in> lang r \<and> c # w \<in> lang s)"
    unfolding in_cat Seq.IH nullable_lang ..
  also have "\<dots> \<longleftrightarrow> c # w \<in> lang (Seq r s)"
    unfolding lang.simps cons_in_cat ..
  finally show ?case .
next
  case (Many r)
  have "w \<in> lang (deriv c (Many r)) \<longleftrightarrow> (\<exists>u v. w = u @ v \<and> u \<in> lang (deriv c r) \<and> v \<in> rep (lang r))"
    unfolding deriv.simps lang.simps in_cat ..
  also have "\<dots> \<longleftrightarrow> c # w \<in> lang (Many r)"
    unfolding Many.IH lang.simps cons_in_rep[of c w] ..
  finally show ?case .
qed auto

lemma test_lang: "test r s \<longleftrightarrow> s \<in> lang r"
  unfolding test_def
  by (induction s arbitrary: r) (auto simp: nullable_lang lang_deriv)

lemma lang_not_space_at: "lang not_space_at = {[c] | c. plain c}"
  by (auto simp: not_space_at_def plain_def)

lemma rep_singletons: "rep {[c] | c. P c} = {w. \<forall>c \<in> set w. P c}"
proof (intro set_eqI iffI)
  fix w assume "w \<in> rep {[c] | c. P c}"
  then show "w \<in> {w. \<forall>c \<in> set w. P c}"
    by (induction rule: rep.induct) auto
next
  fix w assume "w \<in> {w. \<forall>c \<in> set w. P c}"
  then have "\<forall>c \<in> set w. P c" by simp
  then show "w \<in> rep {[c] | c. P c}"
  proof (induction w)
    case Nil
    show ?case by (rule rep_nil)
  next
    case (Cons a w)
    then have "[a] \<in> {[c] | c. P c}" "w \<in> rep {[c] | c. P c}" by auto
    then have "[a] @ w \<in> rep {[c] | c. P c}" by (rule rep_app)
    then show ?case by simp
  qed
qed

lemma lang_plus_plain: "lang (plus not_space_at) = {w. w \<noteq> [] \<and> (\<forall>c \<in> set w. plain c)}"
proof (intro set_eqI iffI)
  fix w assume "w \<in> lang (plus not_space_at)"
  then show "w \<in> {w. w \<noteq> [] \<and> (\<forall>c \<in> set w. plain c)}"
    unfolding plus_def lang.simps lang_not_space_at rep_singletons
    by (auto simp: in_cat)
next
  fix w assume "w \<in> {w. w \<noteq> [] \<and> (\<forall>c \<in> set w. plain c)}"
  then obtain a v where w: "w = a # v" and p: "plain a" "\<forall>c \<in> set v. plain c"
    by (cases w) auto
  have "[a] @ v \<in> lang (plus not_space_at)"
    unfolding plus_def lang.simps lang_not_space_at rep_singletons in_cat
    using p by blast
  then show "w \<in> lang (plus not_space_at)" using w by simp
qed

lemma lang_at_least2_plain:
  "lang (at_least2 not_space_at) = {w. 2 \<le> length w \<and> (\<forall>c \<in> set w. plain c)}"
proof (intro set_eqI iffI)
  fix w assume "w \<in> lang (at_least2 not_space_at)"
  then show "w \<in> {w. 2 \<le> length w \<and> (\<forall>c \<in> set w. plain c)}"
    unfolding at_least2_def lang.simps lang_not_space_at rep_singletons
    by (auto simp: in_cat)
next
  fix w assume "w \<in> {w. 2 \<le> length w \<and> (\<forall>c \<in> set w. plain c)}"
  then obtain a b v where w: "w = a # b # v" and p: "plain a" "plain b" "\<forall>c \<in> set v. plain c"
    by (cases w; cases "tl w") auto
  have "[a] @ ([b] @ v) \<in> lang (at_least2 not_space_at)"
    unfolding at_least2_def lang.simps lang_not_space_at rep_singletons in_cat
    using p by blast
  then show "w \<in> lang (at_least2 not_space_at)" using w by simp
qed

lemma test_EMAIL_RE: "test EMAIL_RE s \<longleftrightarrow> email_form s"
proof -
  have "s \<in> lang EMAIL_RE \<longleftrightarrow>
        (\<exists>l r1. s = l @ r1 \<and> l \<in> lang (plus not_space_at) \<and>
          (\<exists>r2. r1 = [0x40] @ r2 \<and>
            (\<exists>d r3. r2 = d @ r3 \<and> d \<in> lang (plus not_space_at) \<and>
              (\<exists>t. r3 = [0x2E] @ t \<and> t \<in> lang (at_least2 not_space_at)))))"
    unfolding EMAIL_RE_def lang.simps in_cat by blast
  also have "\<dots> \<longleftrightarrow> email_form s"
    unfolding email_form_def lang_plus_plain lang_at_least2_plain
    by (simp add: ball_Un js_def) blast
  finally show ?thesis by (simp add: test_lang)
qed

subsection \<open>Trimming and the rules\<close>

lemma trim_Nil: "trim [] = []"
  by (simp add: trim_def)

lemma dropWhile_none: "\<forall>c \<in> set s. \<not> P c \<Longrightarrow> dropWhile P s = s"
  by (cases s) auto

lemma trim_plain: "\<forall>c \<in> set s. \<not> is_space c \<Longrightarrow> trim s = s"
proof -
  assume a: "\<forall>c \<in> set s. \<not> is_space c"
  then have "\<forall>c \<in> set (rev s). \<not> is_space c" by simp
  then have "dropWhile is_space (rev s) = rev s" by (rule dropWhile_none)
  with a show ?thesis by (simp add: trim_def dropWhile_none)
qed

lemma test_EMAIL_RE_Nil: "\<not> test EMAIL_RE []"
  by (simp add: test_def EMAIL_RE_def plus_def)

lemma errors_distinct: "distinct [E_FIRSTNAME, E_EMAIL, E_SHORT, E_LONG]"
  by (simp add: E_FIRSTNAME_def E_EMAIL_def E_SHORT_def E_LONG_def js_def)

lemma validate_rules:
  "validate f e m =
     (if rule_firstName f then [E_FIRSTNAME] else []) @
     (if rule_email e then [E_EMAIL] else []) @
     (if rule_short m then [E_SHORT] else []) @
     (if rule_long m then [E_LONG] else [])"
proof -
  have 1: "(\<not> truthy f \<or> length (trim (String f)) < 2) = rule_firstName f"
    by (cases f) (auto simp: truthy_def String_def rule_firstName_def trim_Nil)
  have 2: "(\<not> truthy e \<or> \<not> test EMAIL_RE (trim (String e))) = rule_email e"
    by (cases e) (auto simp: truthy_def String_def rule_email_def trim_Nil test_EMAIL_RE_Nil)
  have 3: "(\<not> truthy m \<or> length (trim (String m)) < 10) = rule_short m"
    by (cases m) (auto simp: truthy_def String_def rule_short_def trim_Nil)
  have 4: "(truthy m \<and> length (trim (String m)) > 5000) = rule_long m"
    by (cases m) (auto simp: truthy_def String_def rule_long_def trim_Nil)
  show ?thesis
    unfolding validate_def Let_def 1 2 3 4 by simp
qed

lemma in_validate:
  "E_FIRSTNAME \<in> set (validate f e m) \<longleftrightarrow> rule_firstName f"
  "E_EMAIL \<in> set (validate f e m) \<longleftrightarrow> rule_email e"
  "E_SHORT \<in> set (validate f e m) \<longleftrightarrow> rule_short m"
  "E_LONG \<in> set (validate f e m) \<longleftrightarrow> rule_long m"
  using errors_distinct by (auto simp: validate_rules)

text \<open>
  Claim C5. For every input, \<open>validate\<close> evaluates the four rules independently and returns
  exactly the error strings of the rules that apply, in the fixed order first name,
  e-mail, message too short, message too long; the list is empty if and only if no rule
  applies. A message of exactly 10 trimmed characters passes the lower bound and one of 9
  fails it, one of exactly 5000 passes the upper bound and one of 5001 fails it, and a
  first name that trims to fewer than 2 characters yields the first-name error.
\<close>

theorem validate_all_rules_in_order:
  "validate f e m =
     map snd (filter fst [(rule_firstName f, E_FIRSTNAME), (rule_email e, E_EMAIL),
                          (rule_short m, E_SHORT), (rule_long m, E_LONG)])
   \<and> (validate f e m = [] \<longleftrightarrow>
        \<not> rule_firstName f \<and> \<not> rule_email e \<and> \<not> rule_short m \<and> \<not> rule_long m)
   \<and> (length (trim s) = 10 \<longrightarrow> E_SHORT \<notin> set (validate f e (Some s)))
   \<and> (length (trim s) = 9 \<longrightarrow> E_SHORT \<in> set (validate f e (Some s)))
   \<and> (length (trim s) = 5000 \<longrightarrow> E_LONG \<notin> set (validate f e (Some s)))
   \<and> (length (trim s) = 5001 \<longrightarrow> E_LONG \<in> set (validate f e (Some s)))
   \<and> (length (trim s) < 2 \<longrightarrow> E_FIRSTNAME \<in> set (validate (Some s) e m))"
proof -
  have a: "validate f e m =
     map snd (filter fst [(rule_firstName f, E_FIRSTNAME), (rule_email e, E_EMAIL),
                          (rule_short m, E_SHORT), (rule_long m, E_LONG)])"
    by (simp add: validate_rules)
  have b: "validate f e m = [] \<longleftrightarrow>
        \<not> rule_firstName f \<and> \<not> rule_email e \<and> \<not> rule_short m \<and> \<not> rule_long m"
    by (simp add: validate_rules)
  show ?thesis
    unfolding in_validate
    using a b by (simp add: rule_short_def rule_long_def rule_firstName_def)
qed

theorem validate_all_rules_in_order_witness:
  "validate (Some (js ''Jo'')) (Some (js ''a@b.co'')) (Some (js ''0123456789'')) = []
   \<and> length (trim (js ''0123456789'')) = 10
   \<and> E_SHORT \<notin> set (validate None None (Some (js ''0123456789'')))
   \<and> length (trim (js '' 012345678 '')) = 9
   \<and> E_SHORT \<in> set (validate None None (Some (js '' 012345678 '')))
   \<and> length (trim (replicate 5000 0x61)) = 5000
   \<and> E_LONG \<notin> set (validate None None (Some (replicate 5000 0x61)))
   \<and> length (trim (replicate 5001 0x61)) = 5001
   \<and> E_LONG \<in> set (validate None None (Some (replicate 5001 0x61)))
   \<and> length (trim (js '' J '')) < 2
   \<and> E_FIRSTNAME \<in> set (validate (Some (js '' J '')) None None)"
proof -
  have t: "test EMAIL_RE (js ''a@b.co'')"
    by (simp add: test_def EMAIL_RE_def plus_def at_least2_def not_space_at_def js_def is_space_def)
  have l10: "length (trim (js ''0123456789'')) = 10"
    by (simp add: trim_def js_def is_space_def)
  have l9: "length (trim (js '' 012345678 '')) = 9"
    by (simp add: trim_def js_def is_space_def)
  have l5000: "length (trim (replicate 5000 0x61)) = 5000"
    by (subst trim_plain) (simp_all add: is_space_def)
  have l5001: "length (trim (replicate 5001 0x61)) = 5001"
    by (subst trim_plain) (simp_all add: is_space_def)
  have l1: "length (trim (js '' J '')) < 2"
    by (simp add: trim_def js_def is_space_def)
  have l2: "trim (js ''Jo'') = js ''Jo''" "trim (js ''a@b.co'') = js ''a@b.co''"
    by (simp_all add: trim_def js_def is_space_def)
  have ok: "\<not> rule_firstName (Some (js ''Jo''))" "\<not> rule_email (Some (js ''a@b.co''))"
    "\<not> rule_short (Some (js ''0123456789''))" "\<not> rule_long (Some (js ''0123456789''))"
    using t l10 by (simp_all add: rule_firstName_def rule_email_def rule_short_def rule_long_def l2) (simp add: js_def)
  show ?thesis
    using validate_all_rules_in_order[of "Some (js ''Jo'')" "Some (js ''a@b.co'')" "Some (js ''0123456789'')" "js ''0123456789''"]
      validate_all_rules_in_order[of None None None "js ''0123456789''"]
      validate_all_rules_in_order[of None None None "js '' 012345678 ''"]
      validate_all_rules_in_order[of None None None "replicate 5000 0x61"]
      validate_all_rules_in_order[of None None None "replicate 5001 0x61"]
      validate_all_rules_in_order[of None None None "js '' J ''"]
      ok l10 l9 l5000 l5001 l1
    by simp
qed

subsection \<open>The e-mail check\<close>

lemma email_ok_iff: "E_EMAIL \<notin> set (validate f e m) \<longleftrightarrow> (\<exists>s. e = Some s \<and> email_form (trim s))"
  by (cases e) (simp_all add: in_validate rule_email_def test_EMAIL_RE)

lemma spec_pattern_first: "spec_email_pattern s \<Longrightarrow> s \<noteq> [] \<and> \<not> is_space (hd s)"
  unfolding spec_email_pattern_def plain_def
  by (auto simp: hd_append)

lemma spec_pattern_last: "spec_email_pattern s \<Longrightarrow> last s \<noteq> 0x2E"
proof -
  assume "spec_email_pattern s"
  then obtain l d t where s: "s = l @ js ''@'' @ d @ js ''.'' @ t" and t: "2 \<le> length t"
    "\<forall>c \<in> set t. plain c \<and> c \<noteq> 0x2E"
    unfolding spec_email_pattern_def by blast
  from t have "t \<noteq> []" by auto
  then have "last s = last t" "last t \<in> set t" using s by simp_all
  with t show ?thesis by auto
qed

text \<open>
  Claim C2, as amended. The e-mail check of \<open>validate\<close> accepts exactly the strings that,
  after trimming of surrounding white space, have the form \<open>L@D.T\<close> with \<open>L\<close> and \<open>D\<close> not
  empty, \<open>T\<close> of at least 2 characters, and neither white space nor \<open>@\<close> in \<open>L\<close>, \<open>D\<close> or
  \<open>T\<close> (dots are allowed in \<open>D\<close> and in \<open>T\<close>). In particular \<open>a@b.co\<close> passes, while \<open>a@b\<close>,
  \<open>a@@b.co\<close>, \<open>ab.co\<close> and the empty string each fail with the error
  \<open>A valid email address is required.\<close>
\<close>

theorem email_check_accepts_trimmed_form:
  "(E_EMAIL \<notin> set (validate f e m)) = (\<exists>s. e = Some s \<and> email_form (trim s))
   \<and> E_EMAIL \<notin> set (validate f (Some (js ''a@b.co'')) m)
   \<and> E_EMAIL \<in> set (validate f (Some (js ''a@b'')) m)
   \<and> E_EMAIL \<in> set (validate f (Some (js ''a@@b.co'')) m)
   \<and> E_EMAIL \<in> set (validate f (Some (js ''ab.co'')) m)
   \<and> E_EMAIL \<in> set (validate f (Some (js '''')) m)"
proof -
  have t: "trim (js ''a@b.co'') = js ''a@b.co''" "trim (js ''a@b'') = js ''a@b''"
    "trim (js ''a@@b.co'') = js ''a@@b.co''" "trim (js ''ab.co'') = js ''ab.co''"
    "trim (js '''') = js ''''"
    by (simp_all add: trim_def js_def is_space_def)
  have r: "test EMAIL_RE (js ''a@b.co'')" "\<not> test EMAIL_RE (js ''a@b'')"
    "\<not> test EMAIL_RE (js ''a@@b.co'')" "\<not> test EMAIL_RE (js ''ab.co'')"
    "\<not> test EMAIL_RE (js '''')"
    by (simp_all add: test_def EMAIL_RE_def plus_def at_least2_def not_space_at_def js_def is_space_def)
  have "(E_EMAIL \<notin> set (validate f e m)) = (\<exists>s. e = Some s \<and> email_form (trim s))"
    by (rule email_ok_iff)
  moreover have "E_EMAIL \<notin> set (validate f (Some (js ''a@b.co'')) m)"
    "E_EMAIL \<in> set (validate f (Some (js ''a@b'')) m)"
    "E_EMAIL \<in> set (validate f (Some (js ''a@@b.co'')) m)"
    "E_EMAIL \<in> set (validate f (Some (js ''ab.co'')) m)"
    "E_EMAIL \<in> set (validate f (Some (js '''')) m)"
    unfolding in_validate using r by (simp_all add: rule_email_def t)
  ultimately show ?thesis by blast
qed

theorem email_check_accepts_trimmed_form_witness:
  "email_form (js ''a@b.co'') \<and> \<not> email_form (js ''a@b'')"
proof -
  have t: "trim (js ''a@b.co'') = js ''a@b.co''" "trim (js ''a@b'') = js ''a@b''"
    by (simp_all add: trim_def js_def is_space_def)
  note a = email_check_accepts_trimmed_form[of "Some (js ''Jo'')" "Some (js ''a@b.co'')" "Some (js ''0123456789'')"]
  note b = email_check_accepts_trimmed_form[of "Some (js ''Jo'')" "Some (js ''a@b'')" "Some (js ''0123456789'')"]
  from a have "email_form (trim (js ''a@b.co''))" by blast
  moreover from b have "\<not> email_form (trim (js ''a@b''))" by blast
  ultimately show ?thesis by (simp add: t)
qed

text \<open>
  Claim C2 as stated fails: \<open>validate\<close> accepts \<open> a@b.co\<close>, which starts with a space, and
  \<open>a@b...\<close>, whose final label is empty; neither matches the pattern of the specification.
\<close>

theorem email_check_counterexample:
  "E_EMAIL \<notin> set (validate (Some (js ''Jo'')) (Some (js '' a@b.co'')) (Some (js ''0123456789'')))
   \<and> \<not> spec_email_pattern (js '' a@b.co'')
   \<and> E_EMAIL \<notin> set (validate (Some (js ''Jo'')) (Some (js ''a@b...'')) (Some (js ''0123456789'')))
   \<and> \<not> spec_email_pattern (js ''a@b...'')"
proof -
  have t: "trim (js '' a@b.co'') = js ''a@b.co''" "trim (js ''a@b...'') = js ''a@b...''"
    by (simp_all add: trim_def js_def is_space_def)
  have r: "test EMAIL_RE (js ''a@b.co'')" "test EMAIL_RE (js ''a@b...'')"
    by (simp_all add: test_def EMAIL_RE_def plus_def at_least2_def not_space_at_def js_def is_space_def)
  have 1: "\<not> spec_email_pattern (js '' a@b.co'')"
    using spec_pattern_first[of "js '' a@b.co''"] by (auto simp: js_def is_space_def)
  have 2: "\<not> spec_email_pattern (js ''a@b...'')"
    using spec_pattern_last[of "js ''a@b...''"] by (auto simp: js_def)
  show ?thesis
    unfolding in_validate using r 1 2 by (simp add: rule_email_def t)
qed

section \<open>Properties of the rate limiter\<close>

lemma isRateLimited_fresh:
  "fresh now ip tbl \<Longrightarrow>
   isRateLimited now ip tbl = (False, tbl(ip \<mapsto> \<lparr>count = 1, windowStart = now\<rparr>))"
  by (auto simp: fresh_def expired_def isRateLimited_def RATE_WINDOW_MS_def RATE_MAX_def
           split: option.splits)

lemma isRateLimited_full:
  "tbl ip = Some e \<Longrightarrow> \<not> expired now e \<Longrightarrow> count e \<ge> 10 \<Longrightarrow>
   isRateLimited now ip tbl = (True, tbl)"
  by (simp add: expired_def isRateLimited_def RATE_WINDOW_MS_def RATE_MAX_def)

lemma isRateLimited_count:
  "tbl ip = Some e \<Longrightarrow> \<not> expired now e \<Longrightarrow> count e < 10 \<Longrightarrow>
   isRateLimited now ip tbl = (False, tbl(ip \<mapsto> e\<lparr>count := count e + 1\<rparr>))"
  by (simp add: expired_def isRateLimited_def RATE_WINDOW_MS_def RATE_MAX_def)

lemma limiter_calls_append:
  "limiter_calls ip (xs @ ys) tbl =
     (case limiter_calls ip xs tbl of
        (r1, l1) \<Rightarrow> (case limiter_calls ip ys l1 of (r2, l2) \<Rightarrow> (r1 @ r2, l2)))"
  by (induction xs arbitrary: tbl) (auto split: prod.splits)

lemma limiter_calls_full:
  "tbl ip = Some e \<Longrightarrow> count e \<ge> 10 \<Longrightarrow> \<forall>u \<in> set ts. \<not> expired u e \<Longrightarrow>
   limiter_calls ip ts tbl = (replicate (length ts) True, tbl)"
  by (induction ts) (auto simp: isRateLimited_full)

lemma limiter_calls_filling:
  "tbl ip = Some e \<Longrightarrow> count e = 10 - int (length ts) \<Longrightarrow> \<forall>u \<in> set ts. \<not> expired u e \<Longrightarrow>
   limiter_calls ip ts tbl = (replicate (length ts) False, tbl(ip \<mapsto> e\<lparr>count := 10\<rparr>))"
proof (induction ts arbitrary: e tbl)
  case Nil
  then have "e\<lparr>count := 10\<rparr> = e" by simp
  with Nil show ?case by (simp add: map_upd_triv)
next
  case (Cons u ts)
  let ?e = "e\<lparr>count := count e + 1\<rparr>"
  let ?l = "tbl(ip \<mapsto> ?e)"
  from Cons.prems have step: "isRateLimited u ip tbl = (False, ?l)"
    by (intro isRateLimited_count) auto
  have "limiter_calls ip ts ?l = (replicate (length ts) False, ?l(ip \<mapsto> ?e\<lparr>count := 10\<rparr>))"
    using Cons.prems by (intro Cons.IH) (auto simp: expired_def)
  moreover have "?l(ip \<mapsto> ?e\<lparr>count := 10\<rparr>) = tbl(ip \<mapsto> e\<lparr>count := 10\<rparr>)"
    by simp
  ultimately have "limiter_calls ip ts ?l = (replicate (length ts) False, tbl(ip \<mapsto> e\<lparr>count := 10\<rparr>))"
    by (rule trans[OF _ arg_cong])
  with step show ?case by (simp del: fun_upd_apply)
qed

lemma limiter_calls_window:
  assumes "fresh now ip tbl" and "length ts = 9"
    and "\<forall>u \<in> set (ts @ us). u - now \<le> 15 * 60 * 1000"
  shows "limiter_calls ip (now # ts @ us) tbl =
        (replicate 10 False @ replicate (length us) True,
         tbl(ip \<mapsto> \<lparr>count = 10, windowStart = now\<rparr>))"
proof -
  let ?e1 = "\<lparr>count = 1, windowStart = now\<rparr>"
  let ?e10 = "\<lparr>count = 10, windowStart = now\<rparr>"
  let ?l1 = "tbl(ip \<mapsto> ?e1)"
  let ?l10 = "tbl(ip \<mapsto> ?e10)"
  from assms have 1: "isRateLimited now ip tbl = (False, ?l1)"
    by (simp add: isRateLimited_fresh)
  from assms have w: "\<forall>u \<in> set ts. \<not> expired u ?e1" "\<forall>u \<in> set us. \<not> expired u ?e10"
    by (simp_all add: expired_def ball_Un not_less)
  have "limiter_calls ip ts ?l1 = (replicate (length ts) False, ?l1(ip \<mapsto> ?e1\<lparr>count := 10\<rparr>))"
    using assms w(1) by (intro limiter_calls_filling) simp_all
  then have 2: "limiter_calls ip ts ?l1 = (replicate 9 False, ?l10)"
    using assms by simp
  have 3: "limiter_calls ip us ?l10 = (replicate (length us) True, ?l10)"
    using w(2) by (intro limiter_calls_full[where e = ?e10]) simp_all
  show ?thesis
    using 1 2 3 by (simp add: limiter_calls_append eval_nat_numeral)
qed

text \<open>
  Claim C3. For every key, \<open>isRateLimited\<close> is a fixed window that resets on first use
  after expiry: with no entry, or an entry whose window started more than 15 minutes ago,
  the entry becomes \<open>{count: 1, windowStart: now}\<close> and the call returns not-limited;
  otherwise, with \<open>count >= 10\<close>, it returns limited and changes nothing; otherwise it
  increments \<open>count\<close> and returns not-limited. So 10 calls within the window return
  not-limited, the 11th and every further call within the window return limited, and after
  the window has expired the next call returns not-limited and resets the counter to 1.
\<close>

theorem isRateLimited_fixed_window:
  "(fresh now ip tbl \<longrightarrow>
      isRateLimited now ip tbl = (False, tbl(ip \<mapsto> \<lparr>count = 1, windowStart = now\<rparr>)))
   \<and> (tbl ip = Some e \<and> \<not> expired now e \<and> count e \<ge> 10 \<longrightarrow>
      isRateLimited now ip tbl = (True, tbl))
   \<and> (tbl ip = Some e \<and> \<not> expired now e \<and> count e < 10 \<longrightarrow>
      isRateLimited now ip tbl = (False, tbl(ip \<mapsto> e\<lparr>count := count e + 1\<rparr>)))
   \<and> (fresh now ip tbl \<and> length ts = 9 \<and> (\<forall>u \<in> set (ts @ us). u - now \<le> 15 * 60 * 1000) \<longrightarrow>
      limiter_calls ip (now # ts @ us) tbl =
        (replicate 10 False @ replicate (length us) True,
         tbl(ip \<mapsto> \<lparr>count = 10, windowStart = now\<rparr>))
      \<and> (later - now > 15 * 60 * 1000 \<longrightarrow>
           isRateLimited later ip (snd (limiter_calls ip (now # ts @ us) tbl)) =
             (False, tbl(ip \<mapsto> \<lparr>count = 1, windowStart = later\<rparr>))))"
proof -
  have 4: "limiter_calls ip (now # ts @ us) tbl =
        (replicate 10 False @ replicate (length us) True,
         tbl(ip \<mapsto> \<lparr>count = 10, windowStart = now\<rparr>))
      \<and> (later - now > 15 * 60 * 1000 \<longrightarrow>
           isRateLimited later ip (snd (limiter_calls ip (now # ts @ us) tbl)) =
             (False, tbl(ip \<mapsto> \<lparr>count = 1, windowStart = later\<rparr>)))"
    if a: "fresh now ip tbl \<and> length ts = 9 \<and> (\<forall>u \<in> set (ts @ us). u - now \<le> 15 * 60 * 1000)"
  proof -
    from a have run: "limiter_calls ip (now # ts @ us) tbl =
        (replicate 10 False @ replicate (length us) True,
         tbl(ip \<mapsto> \<lparr>count = 10, windowStart = now\<rparr>))"
      by (intro limiter_calls_window) simp_all
    have "isRateLimited later ip (snd (limiter_calls ip (now # ts @ us) tbl)) =
             (False, tbl(ip \<mapsto> \<lparr>count = 1, windowStart = later\<rparr>))"
      if "later - now > 15 * 60 * 1000"
    proof -
      from that have "fresh later ip (tbl(ip \<mapsto> \<lparr>count = 10, windowStart = now\<rparr>))"
        by (simp add: fresh_def expired_def)
      then show ?thesis unfolding run by (simp add: isRateLimited_fresh)
    qed
    with run show ?thesis by blast
  qed
  from isRateLimited_fresh[of now ip tbl] isRateLimited_full[of tbl ip e now]
    isRateLimited_count[of tbl ip e now] 4
  show ?thesis by blast
qed

theorem isRateLimited_fixed_window_witness:
  "fresh 1000 (js ''1.2.3.4'') Map.empty
   \<and> limiter_calls (js ''1.2.3.4'')
         (1000 # [1001, 1002, 1003, 1004, 1005, 1006, 1007, 1008, 1009] @ [900000, 901000]) Map.empty
       = (replicate 10 False @ replicate (length [900000, 901000 :: int]) True,
          Map.empty(js ''1.2.3.4'' \<mapsto> \<lparr>count = 10, windowStart = 1000\<rparr>))
   \<and> isRateLimited 901001 (js ''1.2.3.4'')
        (snd (limiter_calls (js ''1.2.3.4'')
           (1000 # [1001, 1002, 1003, 1004, 1005, 1006, 1007, 1008, 1009] @ [900000, 901000]) Map.empty))
       = (False, Map.empty(js ''1.2.3.4'' \<mapsto> \<lparr>count = 1, windowStart = 901001\<rparr>))
   \<and> isRateLimited 901000 (js ''1.2.3.4'')
        (Map.empty(js ''1.2.3.4'' \<mapsto> \<lparr>count = 10, windowStart = 1000\<rparr>))
       = (True, Map.empty(js ''1.2.3.4'' \<mapsto> \<lparr>count = 10, windowStart = 1000\<rparr>))
   \<and> isRateLimited 901000 (js ''1.2.3.4'')
        (Map.empty(js ''1.2.3.4'' \<mapsto> \<lparr>count = 3, windowStart = 1000\<rparr>))
       = (False, Map.empty(js ''1.2.3.4'' \<mapsto> \<lparr>count = 4, windowStart = 1000\<rparr>))"
proof -
  let ?ip = "js ''1.2.3.4''"
  let ?ts = "[1001, 1002, 1003, 1004, 1005, 1006, 1007, 1008, 1009] :: int list"
  let ?us = "[900000, 901000] :: int list"
  let ?e10 = "\<lparr>count = 10, windowStart = 1000\<rparr>"
  let ?e3 = "\<lparr>count = 3, windowStart = 1000\<rparr>"
  have f: "fresh 1000 ?ip Map.empty" by (simp add: fresh_def)
  have h4: "fresh 1000 ?ip Map.empty \<and> length ?ts = 9 \<and> (\<forall>u \<in> set (?ts @ ?us). u - 1000 \<le> 15 * 60 * 1000)"
    using f by simp
  have h5: "(901001::int) - 1000 > 15 * 60 * 1000" by simp
  have h2: "(Map.empty(?ip \<mapsto> ?e10)) ?ip = Some ?e10 \<and> \<not> expired 901000 ?e10 \<and> count ?e10 \<ge> 10"
    by (simp add: expired_def)
  have h3: "(Map.empty(?ip \<mapsto> ?e3)) ?ip = Some ?e3 \<and> \<not> expired 901000 ?e3 \<and> count ?e3 < 10"
    by (simp add: expired_def)
  note a = isRateLimited_fixed_window[of 1000 ?ip Map.empty ?e10 ?ts ?us 901001]
  note b = isRateLimited_fixed_window[of 901000 ?ip "Map.empty(?ip \<mapsto> ?e10)" ?e10 "[]" "[]" 0]
  note c = isRateLimited_fixed_window[of 901000 ?ip "Map.empty(?ip \<mapsto> ?e3)" ?e3 "[]" "[]" 0]
  note a4 = a[THEN conjunct2, THEN conjunct2, THEN conjunct2, THEN mp, OF h4]
  note a5 = a4[THEN conjunct2, THEN mp, OF h5]
  note b2 = b[THEN conjunct2, THEN conjunct1, THEN mp, OF h2]
  note c3 = c[THEN conjunct2, THEN conjunct2, THEN conjunct1, THEN mp, OF h3]
  from c3 have c4: "isRateLimited 901000 ?ip (Map.empty(?ip \<mapsto> ?e3))
       = (False, Map.empty(?ip \<mapsto> \<lparr>count = 4, windowStart = 1000\<rparr>))"
    by simp
  show ?thesis
    by (intro conjI f a4[THEN conjunct1] a5 b2 c4)
qed

section \<open>Properties of the token provider\<close>

lemma getAccessToken_hit:
  "cache_hit now w \<Longrightarrow> getAccessToken rt env now w = (Inr (String (cachedToken w)), w)"
  unfolding getAccessToken_def cache_hit_def by (rule if_P)

lemma getAccessToken_miss:
  "\<not> cache_hit now w \<Longrightarrow>
   getAccessToken rt env now w =
     (case token_post rt (netlog w) (token_request env) of
        Resolved status (Some d) \<Rightarrow>
          if \<not> truthy (access_token d)
          then (Inl (Error E_TOKEN), w\<lparr>netlog := netlog w @ [token_request env]\<rparr>)
          else (Inr (String (access_token d)),
                w\<lparr>netlog := netlog w @ [token_request env], cachedToken := access_token d,
                  tokenExpiry := Some (now + or_else_num (expires_in d) 3600 * 1000)\<rparr>)
      | _ \<Rightarrow> (Inl (Error E_TOKEN), w\<lparr>netlog := netlog w @ [token_request env]\<rparr>))"
proof -
  assume "\<not> cache_hit now w"
  then have n: "\<not> (truthy (cachedToken w) \<and> truthy_num (tokenExpiry w)
      \<and> now < or_else_num (tokenExpiry w) 0 - 60000)"
    unfolding cache_hit_def .
  show ?thesis
    unfolding getAccessToken_def if_not_P[OF n]
    by (simp add: Let_def split: axios_result.splits option.splits)
qed

lemma getAccessToken_cases:
  "getAccessToken rt env now w = (Inr (String (cachedToken w)), w) \<and> cache_hit now w
   \<or> (\<exists>t e. getAccessToken rt env now w =
          (Inr t, w\<lparr>netlog := netlog w @ [token_request env], cachedToken := Some t,
                   tokenExpiry := Some e\<rparr>) \<and> t \<noteq> [] \<and> \<not> cache_hit now w)
   \<or> getAccessToken rt env now w =
        (Inl (Error E_TOKEN), w\<lparr>netlog := netlog w @ [token_request env]\<rparr>) \<and> \<not> cache_hit now w"
proof (cases "cache_hit now w")
  case True
  then show ?thesis by (simp add: getAccessToken_hit)
next
  case False
  then show ?thesis
    by (auto simp: getAccessToken_miss truthy_def String_def split: axios_result.splits option.splits)
qed

lemma getAccessToken_fails:
  "getAccessToken rt env now w = (Inl err, w') \<Longrightarrow>
   err = Error E_TOKEN \<and> w' = w\<lparr>netlog := netlog w @ [token_request env]\<rparr>"
  using getAccessToken_cases[of rt env now w] by auto

lemma getAccessToken_ipLog: "ipLog (snd (getAccessToken rt env now w)) = ipLog w"
  using getAccessToken_cases[of rt env now w] by auto

lemma getAccessToken_token_nonempty:
  "cachedToken w \<noteq> Some [] \<Longrightarrow> cachedToken (snd (getAccessToken rt env now w)) \<noteq> Some []"
  using getAccessToken_cases[of rt env now w] by auto


lemma tok0: "js ''tok0'' \<noteq> []" "js ''tok1'' \<noteq> []" "js ''42'' \<noteq> []" "js ''m1'' \<noteq> []"
  by (simp_all add: js_def)



text \<open>
  Claim C8. When the token exchange yields a non-success response, or a response without
  the \<open>access_token\<close> field, \<open>getAccessToken\<close> fails. Whenever it fails, the error is the one
  fixed message \<open>E_TOKEN\<close>, whatever the client id, the client secret and the refresh token
  are, and the cached token and its expiry are left as they were.
\<close>

theorem getAccessToken_failure_keeps_cache:
  "(getAccessToken rt env now w = (Inl err, w') \<longrightarrow>
      err = Error E_TOKEN \<and> cachedToken w' = cachedToken w \<and> tokenExpiry w' = tokenExpiry w)
   \<and> (netlog (snd (getAccessToken rt env now w)) \<noteq> netlog w
       \<and> exchange_failed (token_post rt (netlog w) (token_request env)) \<longrightarrow>
      getAccessToken rt env now w =
        (Inl (Error E_TOKEN), w\<lparr>netlog := netlog w @ [token_request env]\<rparr>))
   \<and> (getAccessToken rt env now w = (Inl err, w')
       \<and> getAccessToken rt2 env2 now2 w2 = (Inl err2, w2') \<longrightarrow> err2 = err)"
proof -
  have 1: "err = Error E_TOKEN \<and> cachedToken w' = cachedToken w \<and> tokenExpiry w' = tokenExpiry w"
    if "getAccessToken rt env now w = (Inl err, w')"
    using getAccessToken_fails[OF that] by simp
  have 2: "getAccessToken rt env now w =
        (Inl (Error E_TOKEN), w\<lparr>netlog := netlog w @ [token_request env]\<rparr>)"
    if a: "netlog (snd (getAccessToken rt env now w)) \<noteq> netlog w
       \<and> exchange_failed (token_post rt (netlog w) (token_request env))"
  proof -
    from a have "\<not> cache_hit now w"
      by (auto simp: getAccessToken_hit)
    with a show ?thesis
      by (auto simp: getAccessToken_miss exchange_failed_def truthy_def
               split: axios_result.splits option.splits)
  qed
  have 3: "err2 = err"
    if "getAccessToken rt env now w = (Inl err, w')
       \<and> getAccessToken rt2 env2 now2 w2 = (Inl err2, w2')"
    using that getAccessToken_fails[of rt env now w err w']
      getAccessToken_fails[of rt2 env2 now2 w2 err2 w2'] by simp
  from 1 2 3 show ?thesis by blast
qed

theorem getAccessToken_failure_keeps_cache_witness:
  "exchange_failed (token_post (rt0 token_missing mail_ok) (netlog (cached 1000)) (token_request env0))
   \<and> getAccessToken (rt0 token_missing mail_ok) env0 1000000 (cached 1000)
        = (Inl (Error E_TOKEN), (cached 1000)\<lparr>netlog := [token_request env0]\<rparr>)
   \<and> cachedToken ((cached 1000)\<lparr>netlog := [token_request env0]\<rparr>) = Some (js ''tok0'')
   \<and> tokenExpiry ((cached 1000)\<lparr>netlog := [token_request env0]\<rparr>) = Some 1000
   \<and> fst (getAccessToken (rt0 token_missing mail_ok)
        (env0\<lparr>ZOHO_CLIENT_SECRET := Some (js ''other'')\<rparr>) 1000000 (cached 1000))
      = Inl (Error E_TOKEN)"
proof -
  let ?rt = "rt0 token_missing mail_ok"
  let ?w = "cached 1000"
  let ?w' = "?w\<lparr>netlog := netlog ?w @ [token_request env0]\<rparr>"
  note t = getAccessToken_failure_keeps_cache[of ?rt env0 1000000 ?w "Error E_TOKEN" ?w']
  have miss: "\<not> cache_hit 1000000 ?w"
    by (simp add: cache_hit_def cached_def initial_def truthy_def truthy_num_def or_else_num_def)
  have f: "exchange_failed (token_post ?rt (netlog ?w) (token_request env0))"
    by (simp add: exchange_failed_def rt0_def token_missing_def)
  have "netlog (snd (getAccessToken ?rt env0 1000000 ?w)) \<noteq> netlog ?w"
    using getAccessToken_cases[of ?rt env0 1000000 ?w] miss by auto
  with t f have 2: "getAccessToken ?rt env0 1000000 ?w = (Inl (Error E_TOKEN), ?w')"
    by blast
  with t have 3: "cachedToken ?w' = cachedToken ?w \<and> tokenExpiry ?w' = tokenExpiry ?w"
    by blast
  let ?env1 = "env0\<lparr>ZOHO_CLIENT_SECRET := Some (js ''other'')\<rparr>"
  obtain r1 w1 where o: "getAccessToken ?rt ?env1 1000000 ?w = (r1, w1)"
    by (cases "getAccessToken ?rt ?env1 1000000 ?w")
  from getAccessToken_cases[of ?rt ?env1 1000000 ?w] miss o
  obtain e1 where e1: "r1 = Inl e1"
    by (auto simp: getAccessToken_miss rt0_def token_missing_def truthy_def)
  from getAccessToken_failure_keeps_cache[of ?rt env0 1000000 ?w "Error E_TOKEN" ?w' ?rt ?env1 1000000 ?w e1 w1]
    2 o e1
  have "e1 = Error E_TOKEN" by blast
  with o e1 have 4: "fst (getAccessToken ?rt ?env1 1000000 ?w) = Inl (Error E_TOKEN)" by simp
  from 2 3 4 f show ?thesis
    by (simp add: cached_def initial_def)
qed

section \<open>Properties of the mail sender\<close>

lemma send_token_fail:
  "getAccessToken rt env now w = (Inl e, w1) \<Longrightarrow> send rt env now msg w = (Inl e, w1)"
  by (simp add: send_def)

lemma send_no_account:
  "getAccessToken rt env now w = (Inr tok, w1) \<Longrightarrow> \<not> truthy (ZOHO_ACCOUNT_ID env) \<Longrightarrow>
   send rt env now msg w = (Inl (Error E_NO_ACCOUNT), w1)"
  by (simp add: send_def)

lemma send_posted:
  "getAccessToken rt env now w = (Inr tok, w1) \<Longrightarrow> ZOHO_ACCOUNT_ID env = Some a \<Longrightarrow> a \<noteq> [] \<Longrightarrow>
   send rt env now msg w =
     (case mail_post rt (netlog w1) (mail_request a tok msg) of
        Resolved status data \<Rightarrow>
          (if status = 200 \<and> has_message_id data
           then Inr (String (messageId (the data)))
           else Inl (Error (E_UNEXPECTED rt data)))
      | Rejected err \<Rightarrow> Inl (send_catch rt (Axios err)),
      w1\<lparr>netlog := netlog w1 @ [mail_request a tok msg]\<rparr>)"
  by (auto simp: send_def Let_def truthy_def String_def send_catch_def has_message_id_def
           split: axios_result.splits option.splits)

lemma send_catch_rejected:
  "send_catch rt (Axios (AxiosError resp m)) =
     (case resp of
        Some (status, Some z) \<Rightarrow>
          if error_code z = Some (js ''INVALID_OAUTHTOKEN'') then Error E_BAD_TOKEN
          else if error_code z = Some (js ''INVALID_ACCOUNT'') then Error E_BAD_ACCOUNT
          else if error_code z = Some (js ''QUOTA_EXCEEDED'') then Error E_QUOTA
          else Error (E_API rt (Some z))
      | _ \<Rightarrow> Axios (AxiosError resp m))"
proof -
  have c: "(if truthy (errorCode z) then errorCode z else status_code z) = error_code z" for z
    by (auto simp: truthy_def error_code_def split: option.splits)
  show ?thesis
    by (simp add: send_catch_def c split: option.splits prod.splits)
qed

lemma send_ipLog: "ipLog (snd (send rt env now msg w)) = ipLog w"
proof (cases "getAccessToken rt env now w")
  case (Pair r w1)
  with getAccessToken_ipLog[of rt env now w] have i: "ipLog w1 = ipLog w" by simp
  show ?thesis
  proof (cases r)
    case (Inl e)
    with Pair i show ?thesis by (simp add: send_token_fail)
  next
    case (Inr tok)
    show ?thesis
    proof (cases "truthy (ZOHO_ACCOUNT_ID env)")
      case False
      with Pair Inr i show ?thesis by (simp add: send_no_account)
    next
      case True
      then obtain a where "ZOHO_ACCOUNT_ID env = Some a" "a \<noteq> []"
        by (auto simp: truthy_def split: option.splits)
      with Pair Inr i show ?thesis by (simp add: send_posted)
    qed
  qed
qed

lemma getAccessToken_netlog:
  "\<exists>new. netlog (snd (getAccessToken rt env now w)) = netlog w @ new
     \<and> (\<forall>r \<in> set new. r = token_request env)"
  using getAccessToken_cases[of rt env now w] by auto

lemma send_netlog:
  "\<exists>new. netlog (snd (send rt env now msg w)) = netlog w @ new
     \<and> (\<forall>r \<in> set new. r = token_request env \<or> is_send_of msg r)"
proof (cases "getAccessToken rt env now w")
  case (Pair r w1)
  from getAccessToken_netlog[of rt env now w] Pair
  obtain new where n: "netlog w1 = netlog w @ new" "\<forall>r \<in> set new. r = token_request env"
    by auto
  show ?thesis
  proof (cases r)
    case (Inl e)
    with Pair n show ?thesis by (simp add: send_token_fail)
  next
    case (Inr tok)
    show ?thesis
    proof (cases "truthy (ZOHO_ACCOUNT_ID env)")
      case False
      with Pair Inr n show ?thesis by (simp add: send_no_account)
    next
      case True
      then obtain a where a: "ZOHO_ACCOUNT_ID env = Some a" "a \<noteq> []"
        by (auto simp: truthy_def split: option.splits)
      have "is_send_of msg (mail_request a tok msg)"
        unfolding is_send_of_def by blast
      with Pair Inr n a show ?thesis by (simp add: send_posted)
    qed
  qed
qed

lemma cached_hit:
  "getAccessToken rt env 1000000 (cached 1061000) = (Inr (js ''tok0''), cached 1061000)"
proof -
  have "cache_hit 1000000 (cached 1061000)"
    using tok0 by (simp add: cache_hit_def cached_def initial_def truthy_def truthy_num_def or_else_num_def)
  then show ?thesis
    by (simp add: getAccessToken_hit) (simp add: cached_def String_def)
qed

lemma env0_account: "ZOHO_ACCOUNT_ID env0 = Some (js ''42'')"
  by (simp add: env0_def)

text \<open>
  Claim C6. Once the access token is obtained and the account identifier is configured,
  \<open>send\<close> succeeds, returning the message identifier, exactly when the provider's response
  has status 200 and holds a non-empty message identifier; any other resolved response,
  also one with another status of the success range, is the failure
  \<open>Unexpected Zoho response\<close>.
\<close>

theorem send_success_exactly:
  assumes "getAccessToken rt env now w = (Inr tok, w1)"
    and "ZOHO_ACCOUNT_ID env = Some a" and "a \<noteq> []"
  shows "((\<exists>mid w'. send rt env now msg w = (Inr mid, w')) \<longleftrightarrow>
          (\<exists>d mid. mail_post rt (netlog w1) (mail_request a tok msg) = Resolved 200 (Some d)
             \<and> messageId d = Some mid \<and> mid \<noteq> []))
    \<and> (mail_post rt (netlog w1) (mail_request a tok msg) = Resolved 200 (Some d)
          \<and> messageId d = Some mid \<and> mid \<noteq> [] \<longrightarrow>
        send rt env now msg w = (Inr mid, w1\<lparr>netlog := netlog w1 @ [mail_request a tok msg]\<rparr>))
    \<and> (mail_post rt (netlog w1) (mail_request a tok msg) = Resolved status data
          \<and> \<not> (status = 200 \<and> has_message_id data) \<longrightarrow>
        send rt env now msg w =
          (Inl (Error (E_UNEXPECTED rt data)), w1\<lparr>netlog := netlog w1 @ [mail_request a tok msg]\<rparr>))"
proof -
  note s = send_posted[OF assms, of msg]
  have 1: "(\<exists>mid w'. send rt env now msg w = (Inr mid, w')) \<longleftrightarrow>
          (\<exists>d mid. mail_post rt (netlog w1) (mail_request a tok msg) = Resolved 200 (Some d)
             \<and> messageId d = Some mid \<and> mid \<noteq> [])"
    unfolding s by (auto simp: has_message_id_def split: axios_result.splits)
  have 2: "send rt env now msg w = (Inr mid, w1\<lparr>netlog := netlog w1 @ [mail_request a tok msg]\<rparr>)"
    if "mail_post rt (netlog w1) (mail_request a tok msg) = Resolved 200 (Some d)
          \<and> messageId d = Some mid \<and> mid \<noteq> []"
    unfolding s using that by (simp add: has_message_id_def String_def)
  have 3: "send rt env now msg w =
          (Inl (Error (E_UNEXPECTED rt data)), w1\<lparr>netlog := netlog w1 @ [mail_request a tok msg]\<rparr>)"
    if "mail_post rt (netlog w1) (mail_request a tok msg) = Resolved status data
          \<and> \<not> (status = 200 \<and> has_message_id data)"
    unfolding s using that by auto
  from 1 2 3 show ?thesis by blast
qed

theorem send_success_exactly_witness:
  "send (rt0 token_ok mail_ok) env0 1000000 hello (cached 1061000)
     = (Inr (js ''m1''),
        (cached 1061000)\<lparr>netlog := netlog (cached 1061000) @ [mail_request (js ''42'') (js ''tok0'') hello]\<rparr>)
   \<and> send (rt0 token_ok mail_created) env0 1000000 hello (cached 1061000)
     = (Inl (Error (E_UNEXPECTED (rt0 token_ok mail_created)
          (Some \<lparr>messageId = Some (js ''m1''), errorCode = None, status_code = None\<rparr>))),
        (cached 1061000)\<lparr>netlog := netlog (cached 1061000) @ [mail_request (js ''42'') (js ''tok0'') hello]\<rparr>)"
proof -
  let ?d = "\<lparr>messageId = Some (js ''m1''), errorCode = None, status_code = None\<rparr>"
  note a = send_success_exactly[OF cached_hit env0_account tok0(3), of "rt0 token_ok mail_ok" hello ?d "js ''m1''"]
  note b = send_success_exactly[OF cached_hit env0_account tok0(3), of "rt0 token_ok mail_created" hello _ _ 201 "Some ?d"]
  have ha: "mail_post (rt0 token_ok mail_ok) (netlog (cached 1061000)) (mail_request (js ''42'') (js ''tok0'') hello)
      = Resolved 200 (Some ?d) \<and> messageId ?d = Some (js ''m1'') \<and> js ''m1'' \<noteq> []"
    using tok0 by (simp add: rt0_def mail_ok_def)
  have hb: "mail_post (rt0 token_ok mail_created) (netlog (cached 1061000)) (mail_request (js ''42'') (js ''tok0'') hello)
      = Resolved 201 (Some ?d) \<and> \<not> (201 = (200::nat) \<and> has_message_id (Some ?d))"
    by (simp add: rt0_def mail_created_def)
  from a ha have 1: "send (rt0 token_ok mail_ok) env0 1000000 hello (cached 1061000)
     = (Inr (js ''m1''),
        (cached 1061000)\<lparr>netlog := netlog (cached 1061000) @ [mail_request (js ''42'') (js ''tok0'') hello]\<rparr>)"
    by blast
  from b hb have 2: "send (rt0 token_ok mail_created) env0 1000000 hello (cached 1061000)
     = (Inl (Error (E_UNEXPECTED (rt0 token_ok mail_created) (Some ?d))),
        (cached 1061000)\<lparr>netlog := netlog (cached 1061000) @ [mail_request (js ''42'') (js ''tok0'') hello]\<rparr>)"
    by blast
  from 1 2 show ?thesis by blast
qed



section \<open>Properties of the request handler\<close>

lemma post_not_options: "js ''OPTIONS'' \<noteq> js ''POST''"
  by (simp add: js_def)

lemma handler_not_post:
  "httpMethod ev \<noteq> js ''POST'' \<Longrightarrow>
   handler rt env now ev w =
     (respond 405 [(''success'', JBool False), (''error'', JString E_METHOD)] None, w)"
  by (simp add: handler_def)

lemma handler_post:
  "httpMethod ev = js ''POST'' \<Longrightarrow>
   handler rt env now ev w =
     (let allowedOrigin = or_else (ALLOWED_ORIGIN env) (js ''*'');
          w1 = w\<lparr>ipLog := snd (isRateLimited (now 0) (client_ip ev) (ipLog w))\<rparr>
      in if fst (isRateLimited (now 0) (client_ip ev) (ipLog w))
         then (respond 429 [(''success'', JBool False), (''error'', JString E_TOO_MANY)]
                 (Some allowedOrigin), w1)
         else
           (case JSON_parse rt (or_else (body ev) (js ''{}'')) of
              None \<Rightarrow>
                (respond 400 [(''success'', JBool False), (''error'', JString E_JSON)]
                   (Some allowedOrigin), w1)
            | Some b \<Rightarrow>
                let errors = validate (Some (dflt (s_firstName b))) (Some (dflt (s_email b)))
                               (Some (dflt (s_message b)))
                in if errors \<noteq> []
                   then (respond 400 [(''success'', JBool False), (''errors'', JStrings errors)]
                           (Some allowedOrigin), w1)
                   else
                     (case send rt env (now 1) (notification rt env b) w1 of
                        (Inl err, w2) \<Rightarrow> (failed env, w2)
                      | (Inr r1, w2) \<Rightarrow>
                          (case send rt env (now 2) (autoReply rt env b) w2 of
                             (Inl err, w3) \<Rightarrow> (failed env, w3)
                           | (Inr r2, w3) \<Rightarrow> (thanked env b, w3)))))"
proof -
  assume p: "httpMethod ev = js ''POST''"
  obtain limited tbl where l: "isRateLimited (now 0) (client_ip ev) (ipLog w) = (limited, tbl)"
    by (cases "isRateLimited (now 0) (client_ip ev) (ipLog w)")
  show ?thesis
  proof (cases "JSON_parse rt (or_else (body ev) (js ''{}''))")
    case None
    with p l post_not_options show ?thesis
      by (simp add: handler_def Let_def)
  next
    case (Some b)
    with p l post_not_options show ?thesis
      by (simp add: handler_def Let_def failed_def thanked_def split: prod.splits sum.splits)
  qed
qed

lemma handler_sends:
  "reaches_send rt now ev w b tbl \<Longrightarrow>
   handler rt env now ev w =
     (case send rt env (now 1) (notification rt env b) (w\<lparr>ipLog := tbl\<rparr>) of
        (Inl err, w2) \<Rightarrow> (failed env, w2)
      | (Inr r1, w2) \<Rightarrow>
          (case send rt env (now 2) (autoReply rt env b) w2 of
             (Inl err, w3) \<Rightarrow> (failed env, w3)
           | (Inr r2, w3) \<Rightarrow> (thanked env b, w3)))"
  unfolding reaches_send_def
  by (auto simp: handler_post Let_def)

text \<open>
  Claim C1 (a request whose method is OPTIONS gets 204 with the CORS headers and an empty
  body) does not hold of the code. The first test of the handler, \<open>httpMethod !== 'POST'\<close>,
  answers such a request with 405, a JSON body and the origin \<open>*\<close>; the preflight branch
  that follows it (lines 55-62: 204, empty body) is never reached.
\<close>

theorem options_preflight_gets_405:
  "handler rt env now (ev\<lparr>httpMethod := js ''OPTIONS''\<rparr>) w =
     (\<lparr>statusCode = 405,
       resp_headers = [(''Access-Control-Allow-Origin'', js ''*''),
                       (''Access-Control-Allow-Methods'', js ''POST, OPTIONS''),
                       (''Access-Control-Allow-Headers'', js ''Content-Type''),
                       (''Content-Type'', js ''application/json'')],
       resp_body = Json [(''success'', JBool False), (''error'', JString (js ''Method Not Allowed''))]\<rparr>,
      w)"
  using post_not_options
  by (simp add: handler_not_post respond_def corsHeaders_def E_METHOD_def)

lemma token_request_not_send: "\<not> is_send_of msg (token_request env)"
  by (simp add: is_send_of_def token_request_def mail_request_def Let_def)

lemma notification_not_autoReply:
  "is_send_of (notification rt env b) r \<Longrightarrow> \<not> is_send_of (autoReply rt env b') r"
  by (auto simp: is_send_of_def mail_request_def notification_def autoReply_def Let_def js_def)

lemma client_ip_headerless: "headerless_post ev \<Longrightarrow> client_ip ev = js ''unknown''"
  by (auto simp: headerless_post_def client_ip_def or_else_def trim_def)

lemma jane_valid:
  "validate (Some (dflt (s_firstName jane))) (Some (dflt (s_email jane)))
     (Some (dflt (s_message jane))) = []"
proof -
  have f: "dflt (s_firstName jane) = js ''Jane''"
    "dflt (s_email jane) = js ''jane@example.com''"
    "dflt (s_message jane) = js ''Hello, I am interested in your platform.''"
    by (simp_all add: jane_def dflt_def)
  have t: "trim (js ''Jane'') = js ''Jane''" "trim (js ''jane@example.com'') = js ''jane@example.com''"
    "trim (js ''Hello, I am interested in your platform.'') = js ''Hello, I am interested in your platform.''"
    by (simp_all add: trim_def js_def is_space_def)
  have e: "test EMAIL_RE (js ''jane@example.com'')"
    by (simp add: test_def EMAIL_RE_def plus_def at_least2_def not_space_at_def js_def is_space_def)
  have l: "length (js ''Jane'') = 4" "length (js ''Hello, I am interested in your platform.'') = 40"
    by (simp_all add: js_def)
  show ?thesis
    unfolding f validate_rules
    by (simp add: rule_firstName_def rule_email_def rule_short_def rule_long_def t e l)
qed

lemma post_event_headerless: "headerless_post post_event"
  by (simp add: headerless_post_def post_event_def)

lemma post_event_reaches_send:
  "reaches_send (rt0 ta ma) (\<lambda>k. 1000000) post_event initial jane
     (Map.empty(js ''unknown'' \<mapsto> \<lparr>count = 1, windowStart = 1000000\<rparr>))"
proof -
  have "fresh 1000000 (js ''unknown'') (ipLog initial)"
    by (simp add: fresh_def initial_def)
  then have "isRateLimited 1000000 (js ''unknown'') (ipLog initial)
     = (False, Map.empty(js ''unknown'' \<mapsto> \<lparr>count = 1, windowStart = 1000000\<rparr>))"
    by (simp add: isRateLimited_fresh) (simp add: initial_def)
  moreover have "httpMethod post_event = js ''POST''" by (simp add: post_event_def)
  moreover have "JSON_parse (rt0 ta ma) s = Some jane" for s by (simp add: rt0_def)
  ultimately show ?thesis
    unfolding reaches_send_def
    using jane_valid client_ip_headerless[OF post_event_headerless] by simp
qed

lemma fresh_token:
  "getAccessToken (rt0 token_ok ma) env0 t (initial\<lparr>ipLog := tbl\<rparr>)
     = (Inr (js ''tok1''),
        initial\<lparr>ipLog := tbl, netlog := [token_request env0], cachedToken := Some (js ''tok1''),
                tokenExpiry := Some (t + 3600000)\<rparr>)"
proof -
  have "\<not> cache_hit t (initial\<lparr>ipLog := tbl\<rparr>)"
    by (simp add: cache_hit_def initial_def truthy_def)
  then show ?thesis
    using tok0
    by (simp add: getAccessToken_miss rt0_def token_ok_def truthy_def String_def or_else_num_def initial_def)
qed

text \<open>
  Claim C9. The handler sends the notification and the auto-reply one after the other, and
  attempts the auto-reply only if the notification send succeeded. If the notification send
  fails (with \<open>INVALID_OAUTHTOKEN\<close>, say) the handler returns 500 with the generic message,
  its final state is the state in which the notification send ended, and none of the
  requests made is a send of the auto-reply. If it succeeds, the handler goes on with the
  send of the auto-reply from the state in which the notification send ended, so that
  every request of the second send comes after all requests of the first.
\<close>

theorem autoreply_only_after_notification:
  assumes "reaches_send rt now ev w b tbl"
  shows "(send rt env (now 1) (notification rt env b) (w\<lparr>ipLog := tbl\<rparr>) = (Inl err, w2) \<longrightarrow>
           handler rt env now ev w = (failed env, w2)
           \<and> (\<exists>new. netlog w2 = netlog w @ new
                 \<and> (\<forall>r \<in> set new. \<not> is_send_of (autoReply rt env b) r)))
    \<and> (send rt env (now 1) (notification rt env b) (w\<lparr>ipLog := tbl\<rparr>) = (Inr id1, w2) \<longrightarrow>
           handler rt env now ev w =
             (case send rt env (now 2) (autoReply rt env b) w2 of
                (Inl err, w3) \<Rightarrow> (failed env, w3)
              | (Inr id2, w3) \<Rightarrow> (thanked env b, w3))
           \<and> (\<exists>new. netlog (snd (handler rt env now ev w)) = netlog w2 @ new))"
proof -
  let ?w1 = "w\<lparr>ipLog := tbl\<rparr>"
  note h = handler_sends[OF assms, of env]
  have 1: "handler rt env now ev w = (failed env, w2)
           \<and> (\<exists>new. netlog w2 = netlog w @ new
                 \<and> (\<forall>r \<in> set new. \<not> is_send_of (autoReply rt env b) r))"
    if f: "send rt env (now 1) (notification rt env b) ?w1 = (Inl err, w2)"
  proof -
    from send_netlog[of rt env "now 1" "notification rt env b" ?w1] f
    obtain new where new: "netlog w2 = netlog w @ new"
      "\<forall>r \<in> set new. r = token_request env \<or> is_send_of (notification rt env b) r"
      by auto
    have "\<not> is_send_of (autoReply rt env b) r" if "r \<in> set new" for r
    proof -
      from that new(2) consider "r = token_request env" | "is_send_of (notification rt env b) r"
        by blast
      then show ?thesis
      proof cases
        case 1
        then show ?thesis by (simp add: token_request_not_send)
      next
        case 2
        then show ?thesis by (rule notification_not_autoReply)
      qed
    qed
    with new(1) have "\<exists>new. netlog w2 = netlog w @ new
                 \<and> (\<forall>r \<in> set new. \<not> is_send_of (autoReply rt env b) r)"
      by blast
    moreover from f h have "handler rt env now ev w = (failed env, w2)" by simp
    ultimately show ?thesis by blast
  qed
  have 2: "handler rt env now ev w =
             (case send rt env (now 2) (autoReply rt env b) w2 of
                (Inl err, w3) \<Rightarrow> (failed env, w3)
              | (Inr id2, w3) \<Rightarrow> (thanked env b, w3))
           \<and> (\<exists>new. netlog (snd (handler rt env now ev w)) = netlog w2 @ new)"
    if s: "send rt env (now 1) (notification rt env b) ?w1 = (Inr id1, w2)"
  proof -
    from s h have e: "handler rt env now ev w =
             (case send rt env (now 2) (autoReply rt env b) w2 of
                (Inl err, w3) \<Rightarrow> (failed env, w3)
              | (Inr id2, w3) \<Rightarrow> (thanked env b, w3))"
      by simp
    then have "snd (handler rt env now ev w) = snd (send rt env (now 2) (autoReply rt env b) w2)"
      by (simp split: prod.splits sum.splits)
    moreover from send_netlog[of rt env "now 2" "autoReply rt env b" w2]
    obtain new where "netlog (snd (send rt env (now 2) (autoReply rt env b) w2)) = netlog w2 @ new"
      by blast
    ultimately have "\<exists>new. netlog (snd (handler rt env now ev w)) = netlog w2 @ new"
      by simp
    with e show ?thesis by blast
  qed
  from 1 2 show ?thesis by blast
qed

theorem autoreply_only_after_notification_witness:
  "handler (rt0 token_ok (mail_rejected (Some (js ''INVALID_OAUTHTOKEN'')) None)) env0 (\<lambda>k. 1000000)
      post_event initial
     = (failed env0,
        initial\<lparr>ipLog := Map.empty(js ''unknown'' \<mapsto> \<lparr>count = 1, windowStart = 1000000\<rparr>),
                netlog := [token_request env0,
                           mail_request (js ''42'') (js ''tok1'')
                             (notification (rt0 token_ok (mail_rejected (Some (js ''INVALID_OAUTHTOKEN'')) None)) env0 jane)],
                cachedToken := Some (js ''tok1''), tokenExpiry := Some 4600000\<rparr>)
   \<and> statusCode (failed env0) = 500
   \<and> (\<exists>new. [token_request env0,
              mail_request (js ''42'') (js ''tok1'')
                (notification (rt0 token_ok (mail_rejected (Some (js ''INVALID_OAUTHTOKEN'')) None)) env0 jane)]
               = netlog initial @ new
          \<and> (\<forall>r \<in> set new. \<not> is_send_of
                (autoReply (rt0 token_ok (mail_rejected (Some (js ''INVALID_OAUTHTOKEN'')) None)) env0 jane) r))
   \<and> fst (handler (rt0 token_ok mail_ok) env0 (\<lambda>k. 1000000) post_event initial) = thanked env0 jane
   \<and> statusCode (thanked env0 jane) = 200"
proof -
  let ?bad = "rt0 token_ok (mail_rejected (Some (js ''INVALID_OAUTHTOKEN'')) None)"
  let ?ok = "rt0 token_ok mail_ok"
  let ?now = "\<lambda>k::nat. 1000000::int"
  let ?tbl = "Map.empty(js ''unknown'' \<mapsto> \<lparr>count = 1, windowStart = 1000000\<rparr>)"
  let ?w1 = "initial\<lparr>ipLog := ?tbl\<rparr>"
  let ?wt = "initial\<lparr>ipLog := ?tbl, netlog := [token_request env0], cachedToken := Some (js ''tok1''),
                tokenExpiry := Some 4600000\<rparr>"
  let ?z = "\<lparr>messageId = None, errorCode = Some (js ''INVALID_OAUTHTOKEN''), status_code = None\<rparr>"
  let ?d = "\<lparr>messageId = Some (js ''m1''), errorCode = None, status_code = None\<rparr>"
  have tk: "getAccessToken (rt0 token_ok ma) env0 1000000 ?w1 = (Inr (js ''tok1''), ?wt)" for ma
    using fresh_token[of ma 1000000 ?tbl] by simp
  have ne: "js ''INVALID_OAUTHTOKEN'' \<noteq> []" by (simp add: js_def)
  have bad: "send ?bad env0 1000000 (notification ?bad env0 jane) ?w1
     = (Inl (Error E_BAD_TOKEN),
        ?wt\<lparr>netlog := netlog ?wt @ [mail_request (js ''42'') (js ''tok1'') (notification ?bad env0 jane)]\<rparr>)"
  proof -
    have mp: "mail_post ?bad sent r = Rejected (AxiosError (Some (400, Some ?z))
        (js ''Request failed with status code 400''))" for sent r
      by (simp add: rt0_def mail_rejected_def)
    show ?thesis
      unfolding send_posted[OF tk env0_account tok0(3)] mp
      using ne by (simp add: send_catch_rejected error_code_def)
  qed
  note a = autoreply_only_after_notification[OF post_event_reaches_send, of token_ok
      "mail_rejected (Some (js ''INVALID_OAUTHTOKEN'')) None" env0 "Error E_BAD_TOKEN"
      "?wt\<lparr>netlog := netlog ?wt @ [mail_request (js ''42'') (js ''tok1'') (notification ?bad env0 jane)]\<rparr>"]
  from a bad have 1: "handler ?bad env0 ?now post_event initial = (failed env0,
      ?wt\<lparr>netlog := netlog ?wt @ [mail_request (js ''42'') (js ''tok1'') (notification ?bad env0 jane)]\<rparr>)
     \<and> (\<exists>new. netlog (?wt\<lparr>netlog := netlog ?wt @ [mail_request (js ''42'') (js ''tok1'') (notification ?bad env0 jane)]\<rparr>)
             = netlog initial @ new
          \<and> (\<forall>r \<in> set new. \<not> is_send_of (autoReply ?bad env0 jane) r))"
    by simp
  have mpok: "mail_post ?ok sent r = Resolved 200 (Some ?d)" for sent r
    by (simp add: rt0_def mail_ok_def)
  have ok1: "send ?ok env0 1000000 (notification ?ok env0 jane) ?w1
     = (Inr (js ''m1''),
        ?wt\<lparr>netlog := netlog ?wt @ [mail_request (js ''42'') (js ''tok1'') (notification ?ok env0 jane)]\<rparr>)"
    unfolding send_posted[OF tk env0_account tok0(3)] mpok
    using tok0 by (simp add: has_message_id_def String_def)
  let ?w2 = "?wt\<lparr>netlog := netlog ?wt @ [mail_request (js ''42'') (js ''tok1'') (notification ?ok env0 jane)]\<rparr>"
  have hit: "cache_hit 1000000 ?w2"
    using tok0 by (simp add: cache_hit_def truthy_def truthy_num_def or_else_num_def)
  have tk2: "getAccessToken ?ok env0 1000000 ?w2 = (Inr (js ''tok1''), ?w2)"
    using hit by (simp add: getAccessToken_hit String_def)
  have ok2: "fst (send ?ok env0 1000000 (autoReply ?ok env0 jane) ?w2) = Inr (js ''m1'')"
    unfolding send_posted[OF tk2 env0_account tok0(3)] mpok
    using tok0 by (simp add: has_message_id_def String_def)
  note b = autoreply_only_after_notification[OF post_event_reaches_send, of token_ok mail_ok env0 _ ?w2 "js ''m1''"]
  from b ok1 have "handler ?ok env0 ?now post_event initial =
             (case send ?ok env0 1000000 (autoReply ?ok env0 jane) ?w2 of
                (Inl err, w3) \<Rightarrow> (failed env0, w3)
              | (Inr id2, w3) \<Rightarrow> (thanked env0 jane, w3))"
    by simp
  with ok2 have 2: "fst (handler ?ok env0 ?now post_event initial) = thanked env0 jane"
    by (simp split: prod.splits sum.splits)
  have 3: "statusCode (failed env0) = 500" "statusCode (thanked env0 jane) = 200"
    by (simp_all add: failed_def thanked_def respond_def)
  from 1 2 3 show ?thesis by simp
qed

lemma status_not_429:
  "statusCode (failed env) \<noteq> 429" "statusCode (thanked env b) \<noteq> 429"
  "statusCode (respond 400 obj origin) \<noteq> 429" "statusCode (respond 429 obj origin) = 429"
  by (simp_all add: failed_def thanked_def respond_def)

lemma handler_limiter:
  assumes "httpMethod ev = js ''POST''"
  shows "(statusCode (fst (handler rt env now ev w)) = 429)
           = fst (isRateLimited (now 0) (client_ip ev) (ipLog w))
     \<and> ipLog (snd (handler rt env now ev w)) = snd (isRateLimited (now 0) (client_ip ev) (ipLog w))"
proof -
  obtain l tbl where i: "isRateLimited (now 0) (client_ip ev) (ipLog w) = (l, tbl)"
    by (cases "isRateLimited (now 0) (client_ip ev) (ipLog w)")
  let ?w1 = "w\<lparr>ipLog := tbl\<rparr>"
  note hp = handler_post[OF assms, of rt env now w, unfolded i fst_conv snd_conv Let_def]
  show ?thesis
  proof (cases l)
    case True
    with hp i show ?thesis by (simp add: status_not_429)
  next
    case False
    note nl = this
    show ?thesis
    proof (cases "JSON_parse rt (or_else (body ev) (js ''{}''))")
      case None
      with hp i nl show ?thesis by (simp add: status_not_429)
    next
      case (Some b)
      note sb = this
      let ?errors = "validate (Some (dflt (s_firstName b))) (Some (dflt (s_email b)))
                               (Some (dflt (s_message b)))"
      show ?thesis
      proof (cases "?errors = []")
        case False
        with hp i nl sb show ?thesis by (simp add: status_not_429)
      next
        case True
        note ok = this
        obtain r1 w2 where s1: "send rt env (now 1) (notification rt env b) ?w1 = (r1, w2)"
          by (cases "send rt env (now 1) (notification rt env b) ?w1")
        from send_ipLog[of rt env "now 1" "notification rt env b" ?w1] s1
        have i2: "ipLog w2 = tbl" by simp
        show ?thesis
        proof (cases r1)
          case (Inl err)
          with hp i nl sb ok s1 i2 show ?thesis by (simp add: status_not_429)
        next
          case (Inr id1)
          note r1 = this
          obtain r2 w3 where s2: "send rt env (now 2) (autoReply rt env b) w2 = (r2, w3)"
            by (cases "send rt env (now 2) (autoReply rt env b) w2")
          from send_ipLog[of rt env "now 2" "autoReply rt env b" w2] s2 i2
          have i3: "ipLog w3 = tbl" by simp
          from hp i nl sb ok s1 r1 s2 i3 show ?thesis
            by (cases r2) (simp_all add: status_not_429)
        qed
      qed
    qed
  qed
qed

lemma serve_limiter:
  "\<forall>(now, ev) \<in> set reqs. httpMethod ev = js ''POST'' \<and> client_ip ev = ip \<Longrightarrow>
   map (\<lambda>r. statusCode r = 429) (fst (serve rt env reqs w))
     = fst (limiter_calls ip (map (\<lambda>(now, ev). now 0) reqs) (ipLog w))
   \<and> ipLog (snd (serve rt env reqs w))
     = snd (limiter_calls ip (map (\<lambda>(now, ev). now 0) reqs) (ipLog w))"
proof (induction reqs arbitrary: w)
  case Nil
  show ?case by simp
next
  case (Cons q reqs)
  obtain now ev where q: "q = (now, ev)" by (cases q)
  with Cons.prems have p: "httpMethod ev = js ''POST''" "client_ip ev = ip" by auto
  obtain r w1 where h: "handler rt env now ev w = (r, w1)" by (cases "handler rt env now ev w")
  obtain l tbl where i: "isRateLimited (now 0) ip (ipLog w) = (l, tbl)"
    by (cases "isRateLimited (now 0) ip (ipLog w)")
  from handler_limiter[OF p(1), of rt env now w] h i p(2)
  have hl: "(statusCode r = 429) = l" "ipLog w1 = tbl" by simp_all
  from Cons.prems have "\<forall>(now, ev) \<in> set reqs. httpMethod ev = js ''POST'' \<and> client_ip ev = ip"
    by simp
  note ih = Cons.IH[OF this, of w1]
  obtain rs wf where sv: "serve rt env reqs w1 = (rs, wf)" by (cases "serve rt env reqs w1")
  obtain ls tf where lc: "limiter_calls ip (map (\<lambda>(now, ev). now 0) reqs) tbl = (ls, tf)"
    by (cases "limiter_calls ip (map (\<lambda>(now, ev). now 0) reqs) tbl")
  from ih hl(2) sv lc have "map (\<lambda>r. statusCode r = 429) rs = ls" "ipLog wf = tf"
    by simp_all
  with hl(1) h i q sv lc show ?case by simp
qed

text \<open>
  Claim C10. Every POST whose \<open>X-Forwarded-For\<close> header is absent or empty is rate limited
  under the one key \<open>unknown\<close>, so all such requests share a counter: once 10 of them have
  arrived within a window of 15 minutes, every further such request within the window gets
  429, and the first one after the window has expired does not.
\<close>

theorem headerless_posts_share_unknown:
  "(headerless_post ev \<longrightarrow> client_ip ev = js ''unknown'')
   \<and> (fresh (t0 0) (js ''unknown'') (ipLog w) \<and> headerless_post ev0 \<and> length first = 9
       \<and> (\<forall>(now, ev) \<in> set (first @ further). headerless_post ev \<and> now 0 - t0 0 \<le> 15 * 60 * 1000) \<longrightarrow>
       map (\<lambda>r. statusCode r = 429) (fst (serve rt env ((t0, ev0) # first @ further) w))
         = replicate 10 False @ replicate (length further) True
       \<and> ipLog (snd (serve rt env ((t0, ev0) # first @ further) w))
         = (ipLog w)(js ''unknown'' \<mapsto> \<lparr>count = 10, windowStart = t0 0\<rparr>)
       \<and> (headerless_post ev \<and> later 0 - t0 0 > 15 * 60 * 1000 \<longrightarrow>
            statusCode (fst (handler rt env later ev (snd (serve rt env ((t0, ev0) # first @ further) w))))
              \<noteq> 429))"
proof -
  let ?u = "js ''unknown''"
  let ?reqs = "(t0, ev0) # first @ further"
  have 1: "client_ip ev = ?u" if "headerless_post ev"
    using that by (rule client_ip_headerless)
  have 2: "map (\<lambda>r. statusCode r = 429) (fst (serve rt env ?reqs w))
         = replicate 10 False @ replicate (length further) True
       \<and> ipLog (snd (serve rt env ?reqs w))
         = (ipLog w)(?u \<mapsto> \<lparr>count = 10, windowStart = t0 0\<rparr>)
       \<and> (headerless_post ev \<and> later 0 - t0 0 > 15 * 60 * 1000 \<longrightarrow>
            statusCode (fst (handler rt env later ev (snd (serve rt env ?reqs w)))) \<noteq> 429)"
    if a: "fresh (t0 0) ?u (ipLog w) \<and> headerless_post ev0 \<and> length first = 9
       \<and> (\<forall>(now, ev) \<in> set (first @ further). headerless_post ev \<and> now 0 - t0 0 \<le> 15 * 60 * 1000)"
  proof -
    from a have all: "\<forall>(now, ev) \<in> set ?reqs. httpMethod ev = js ''POST'' \<and> client_ip ev = ?u"
      using client_ip_headerless by (auto simp: headerless_post_def)
    have times: "map (\<lambda>(now, ev). now 0) ?reqs
       = t0 0 # map (\<lambda>(now, ev). now 0) first @ map (\<lambda>(now, ev). now 0) further"
      by simp
    from a have win: "\<forall>u \<in> set (map (\<lambda>(now, ev). now 0) first @ map (\<lambda>(now, ev). now 0) further).
        u - t0 0 \<le> 15 * 60 * 1000"
      by auto
    from a have "length (map (\<lambda>(now, ev). now 0) first) = 9" by simp
    from limiter_calls_window[OF _ this win, of ?u "ipLog w"] a
    have lc: "limiter_calls ?u (map (\<lambda>(now, ev). now 0) ?reqs) (ipLog w) =
        (replicate 10 False @ replicate (length further) True,
         (ipLog w)(?u \<mapsto> \<lparr>count = 10, windowStart = t0 0\<rparr>))"
      unfolding times by simp
    from serve_limiter[OF all, of rt env w] lc
    have s: "map (\<lambda>r. statusCode r = 429) (fst (serve rt env ?reqs w))
         = replicate 10 False @ replicate (length further) True"
      "ipLog (snd (serve rt env ?reqs w)) = (ipLog w)(?u \<mapsto> \<lparr>count = 10, windowStart = t0 0\<rparr>)"
      by simp_all
    have "statusCode (fst (handler rt env later ev (snd (serve rt env ?reqs w)))) \<noteq> 429"
      if l: "headerless_post ev \<and> later 0 - t0 0 > 15 * 60 * 1000"
    proof -
      from l have p: "httpMethod ev = js ''POST''" "client_ip ev = ?u"
        using client_ip_headerless by (auto simp: headerless_post_def)
      from l have "fresh (later 0) ?u (ipLog (snd (serve rt env ?reqs w)))"
        unfolding s(2) by (simp add: fresh_def expired_def)
      then have "\<not> fst (isRateLimited (later 0) ?u (ipLog (snd (serve rt env ?reqs w))))"
        by (simp add: isRateLimited_fresh)
      with handler_limiter[OF p(1), of rt env later "snd (serve rt env ?reqs w)"] p(2)
      show ?thesis by simp
    qed
    with s show ?thesis by blast
  qed
  from 1 2 show ?thesis by blast
qed

theorem headerless_posts_share_unknown_witness:
  "headerless_post post_event
   \<and> client_ip post_event = js ''unknown''
   \<and> map (\<lambda>r. statusCode r = 429)
       (fst (serve (rt0 token_ok mail_ok) env0
          ((\<lambda>k. 1000000, post_event) # replicate 9 (\<lambda>k. 1000001, post_event)
             @ [(\<lambda>k. 1900000, post_event), (\<lambda>k. 1900000, post_event)]) initial))
       = replicate 10 False @ replicate (length [(\<lambda>k::nat. 1900000::int, post_event), (\<lambda>k. 1900000, post_event)]) True
   \<and> statusCode (fst (handler (rt0 token_ok mail_ok) env0 (\<lambda>k. 1900001) post_event
        (snd (serve (rt0 token_ok mail_ok) env0
          ((\<lambda>k. 1000000, post_event) # replicate 9 (\<lambda>k. 1000001, post_event)
             @ [(\<lambda>k. 1900000, post_event), (\<lambda>k. 1900000, post_event)]) initial)))) \<noteq> 429"
proof -
  let ?first = "replicate 9 (\<lambda>k::nat. 1000001::int, post_event)"
  let ?further = "[(\<lambda>k::nat. 1900000::int, post_event), (\<lambda>k. 1900000, post_event)]"
  note t = headerless_posts_share_unknown[of post_event "\<lambda>k. 1000000" initial post_event ?first ?further
      "rt0 token_ok mail_ok" env0 "\<lambda>k. 1900001"]
  have h: "fresh ((\<lambda>k::nat. 1000000::int) 0) (js ''unknown'') (ipLog initial) \<and> headerless_post post_event
       \<and> length ?first = 9
       \<and> (\<forall>(now, ev) \<in> set (?first @ ?further). headerless_post ev \<and> now 0 - (\<lambda>k::nat. 1000000::int) 0 \<le> 15 * 60 * 1000)"
    using post_event_headerless by (simp add: fresh_def initial_def)
  have l: "headerless_post post_event \<and> (\<lambda>k::nat. 1900001::int) 0 - (\<lambda>k::nat. 1000000::int) 0 > 15 * 60 * 1000"
    using post_event_headerless by simp
  from t h l post_event_headerless show ?thesis by blast
qed

end
